theory Spec2Isabelle
  imports Complex_Main "HOL-Library.Log_Nat" "HOL-Library.Monad_Syntax"
begin

section \<open>JavaScript numbers\<close>

text \<open>
  A JavaScript number is an IEEE 754 binary64 value.  The model keeps the exact rational
  value of every finite double and the three special values; the two signed zeros are
  identified (no operation of the analyser observes the sign of a zero).  Every
  arithmetic operation rounds its exact result to the nearest double, ties to even,
  through \<open>fl\<close>.
\<close>

datatype num = NaN | PInf | NInf | Fin rat

text \<open>\<open>ilog2 x\<close> is the binary exponent of a positive rational: \<open>2^e \<le> x < 2^(e+1)\<close>.\<close>

definition ilog2 :: "rat \<Rightarrow> int" where
  "ilog2 x = (case quotient_of x of (p, q) \<Rightarrow>
     (let d = int (floorlog 2 (nat p)) - int (floorlog 2 (nat q))
      in if 2 powi d \<le> x then d else d - 1))"

definition round_even :: "rat \<Rightarrow> int" where
  "round_even x = (let f = \<lfloor>x\<rfloor>; d = x - of_int f
     in if d < 1 / 2 then f else if 1 / 2 < d then f + 1 else if even f then f else f + 1)"

text \<open>
  Rounding to binary64: 53 significant bits, least exponent \<open>-1022\<close> (below it the
  spacing stays \<open>2^-1074\<close>, the subnormal range), overflow to infinity from \<open>2^1024\<close>.
\<close>

definition fl :: "rat \<Rightarrow> num" where
  "fl x = (if x = 0 then Fin 0 else
     (let a = \<bar>x\<bar>;
          e = max (ilog2 a) (- 1022);
          q = 2 powi (e - 52);
          y = of_int (round_even (a / q)) * q
      in if 2 powi 1024 \<le> y then (if 0 < x then PInf else NInf)
         else Fin (if 0 < x then y else - y)))"

definition isFinite :: "num \<Rightarrow> bool" where
  "isFinite n = (case n of Fin _ \<Rightarrow> True | _ \<Rightarrow> False)"

fun nneg :: "num \<Rightarrow> num" where
  "nneg NaN = NaN"
| "nneg PInf = NInf"
| "nneg NInf = PInf"
| "nneg (Fin a) = Fin (- a)"

fun nadd :: "num \<Rightarrow> num \<Rightarrow> num" where
  "nadd NaN _ = NaN"
| "nadd _ NaN = NaN"
| "nadd PInf NInf = NaN"
| "nadd NInf PInf = NaN"
| "nadd PInf _ = PInf"
| "nadd _ PInf = PInf"
| "nadd NInf _ = NInf"
| "nadd _ NInf = NInf"
| "nadd (Fin a) (Fin b) = fl (a + b)"

definition nsub :: "num \<Rightarrow> num \<Rightarrow> num" where
  "nsub a b = nadd a (nneg b)"

text \<open>The sign of a number as an infinity carries it: used by multiplication and division.\<close>

definition signedInf :: "bool \<Rightarrow> num" where
  "signedInf negative = (if negative then NInf else PInf)"

fun isNegative :: "num \<Rightarrow> bool" where
  "isNegative NInf = True"
| "isNegative (Fin a) = (a < 0)"
| "isNegative _ = False"

fun nmul :: "num \<Rightarrow> num \<Rightarrow> num" where
  "nmul NaN _ = NaN"
| "nmul _ NaN = NaN"
| "nmul (Fin a) (Fin b) = fl (a * b)"
| "nmul a b = (if a = Fin 0 \<or> b = Fin 0 then NaN else signedInf (isNegative a \<noteq> isNegative b))"

fun ndiv :: "num \<Rightarrow> num \<Rightarrow> num" where
  "ndiv NaN _ = NaN"
| "ndiv _ NaN = NaN"
| "ndiv (Fin a) (Fin b) =
     (if b = 0 then (if a = 0 then NaN else signedInf (a < 0)) else fl (a / b))"
| "ndiv (Fin a) _ = Fin 0"
| "ndiv a (Fin b) = signedInf (isNegative a \<noteq> (b < 0))"
| "ndiv _ _ = NaN"

text \<open>\<open>Math.ceil\<close>: the ceiling of a double is a double, so no rounding is needed.\<close>

fun nceil :: "num \<Rightarrow> num" where
  "nceil (Fin a) = Fin (of_int \<lceil>a\<rceil>)"
| "nceil n = n"

text \<open>The comparisons \<open><\<close>, \<open><=\<close>, \<open>>\<close>, \<open>>=\<close>: false as soon as an operand is NaN.\<close>

fun nlt :: "num \<Rightarrow> num \<Rightarrow> bool" where
  "nlt NaN _ = False"
| "nlt _ NaN = False"
| "nlt (Fin a) (Fin b) = (a < b)"
| "nlt PInf _ = False"
| "nlt _ PInf = True"
| "nlt _ NInf = False"
| "nlt NInf _ = True"

definition ngt :: "num \<Rightarrow> num \<Rightarrow> bool" where
  "ngt a b = nlt b a"

definition nle :: "num \<Rightarrow> num \<Rightarrow> bool" where
  "nle a b = (a \<noteq> NaN \<and> b \<noteq> NaN \<and> \<not> nlt b a)"

definition nge :: "num \<Rightarrow> num \<Rightarrow> bool" where
  "nge a b = nle b a"

text \<open>\<open>Math.max\<close> and \<open>Math.min\<close> of two numbers: NaN if either is NaN.\<close>

definition nmax :: "num \<Rightarrow> num \<Rightarrow> num" where
  "nmax a b = (if a = NaN \<or> b = NaN then NaN else if nlt a b then b else a)"

definition nmin :: "num \<Rightarrow> num \<Rightarrow> num" where
  "nmin a b = (if a = NaN \<or> b = NaN then NaN else if nlt b a then b else a)"

text \<open>Strict equality \<open>===\<close> of two numbers: NaN equals nothing.\<close>

definition num_eq :: "num \<Rightarrow> num \<Rightarrow> bool" where
  "num_eq a b = (a \<noteq> NaN \<and> a = b)"

section \<open>JavaScript strings\<close>

text \<open>
  Strings are sequences of code units; the model covers the code units below 256
  (Latin-1), one \<open>char\<close> each.  White space is what \<open>String.prototype.trim\<close> and the
  regular expression \<open>\\s\<close> take for white space in that range: TAB, LF, VT, FF, CR,
  SPACE and NO-BREAK SPACE.
\<close>

definition isWhite :: "char \<Rightarrow> bool" where
  "isWhite c = (c \<in> {CHR 0x09, CHR 0x0A, CHR 0x0B, CHR 0x0C, CHR 0x0D, CHR 0x20, CHR 0xA0})"

definition trim :: "string \<Rightarrow> string" where
  "trim s = rev (dropWhile isWhite (rev (dropWhile isWhite s)))"

fun startsWith :: "string \<Rightarrow> string \<Rightarrow> bool" where
  "startsWith s [] = True"
| "startsWith [] (p # ps) = False"
| "startsWith (c # cs) (p # ps) = (c = p \<and> startsWith cs ps)"

text \<open>\<open>s.includes(sub)\<close>: \<open>sub\<close> occurs in \<open>s\<close> as a contiguous substring.\<close>

fun str_includes :: "string \<Rightarrow> string \<Rightarrow> bool" where
  "str_includes [] sub = (sub = [])"
| "str_includes (c # cs) sub = (startsWith (c # cs) sub \<or> str_includes cs sub)"

text \<open>\<open>s.split(sep)\<close> for a one-character separator: empty pieces are kept.\<close>

fun splitOn :: "char \<Rightarrow> string \<Rightarrow> string list" where
  "splitOn sep [] = [[]]"
| "splitOn sep (c # cs) =
     (if c = sep then [] # splitOn sep cs
      else (case splitOn sep cs of [] \<Rightarrow> [[c]] | p # ps \<Rightarrow> (c # p) # ps))"

text \<open>\<open>s.split(/\\s+/)\<close>: the separators are the maximal runs of white space.\<close>

fun splitWsFrom :: "bool \<Rightarrow> string \<Rightarrow> string list" where
  "splitWsFrom inGap [] = [[]]"
| "splitWsFrom inGap (c # cs) =
     (if isWhite c then (if inGap then splitWsFrom True cs else [] # splitWsFrom True cs)
      else (case splitWsFrom False cs of [] \<Rightarrow> [[c]] | p # ps \<Rightarrow> (c # p) # ps))"

definition splitWs :: "string \<Rightarrow> string list" where
  "splitWs s = splitWsFrom False s"

text \<open>
  \<open>toLowerCase\<close> on this range: the letters A to Z, and the Latin-1 capitals
  \<open>0xC0\<close> to \<open>0xDE\<close> (the multiplication sign \<open>0xD7\<close> apart), move 32 places up.
\<close>

definition caseTable :: "(char \<times> char) list" where
  "caseTable = [
     (CHR ''A'', CHR ''a''), (CHR ''B'', CHR ''b''), (CHR ''C'', CHR ''c''), (CHR ''D'', CHR ''d''),
     (CHR ''E'', CHR ''e''), (CHR ''F'', CHR ''f''), (CHR ''G'', CHR ''g''), (CHR ''H'', CHR ''h''),
     (CHR ''I'', CHR ''i''), (CHR ''J'', CHR ''j''), (CHR ''K'', CHR ''k''), (CHR ''L'', CHR ''l''),
     (CHR ''M'', CHR ''m''), (CHR ''N'', CHR ''n''), (CHR ''O'', CHR ''o''), (CHR ''P'', CHR ''p''),
     (CHR ''Q'', CHR ''q''), (CHR ''R'', CHR ''r''), (CHR ''S'', CHR ''s''), (CHR ''T'', CHR ''t''),
     (CHR ''U'', CHR ''u''), (CHR ''V'', CHR ''v''), (CHR ''W'', CHR ''w''), (CHR ''X'', CHR ''x''),
     (CHR ''Y'', CHR ''y''), (CHR ''Z'', CHR ''z''), (CHR 0xC0, CHR 0xE0), (CHR 0xC1, CHR 0xE1),
     (CHR 0xC2, CHR 0xE2), (CHR 0xC3, CHR 0xE3), (CHR 0xC4, CHR 0xE4), (CHR 0xC5, CHR 0xE5),
     (CHR 0xC6, CHR 0xE6), (CHR 0xC7, CHR 0xE7), (CHR 0xC8, CHR 0xE8), (CHR 0xC9, CHR 0xE9),
     (CHR 0xCA, CHR 0xEA), (CHR 0xCB, CHR 0xEB), (CHR 0xCC, CHR 0xEC), (CHR 0xCD, CHR 0xED),
     (CHR 0xCE, CHR 0xEE), (CHR 0xCF, CHR 0xEF), (CHR 0xD0, CHR 0xF0), (CHR 0xD1, CHR 0xF1),
     (CHR 0xD2, CHR 0xF2), (CHR 0xD3, CHR 0xF3), (CHR 0xD4, CHR 0xF4), (CHR 0xD5, CHR 0xF5),
     (CHR 0xD6, CHR 0xF6), (CHR 0xD8, CHR 0xF8), (CHR 0xD9, CHR 0xF9), (CHR 0xDA, CHR 0xFA),
     (CHR 0xDB, CHR 0xFB), (CHR 0xDC, CHR 0xFC), (CHR 0xDD, CHR 0xFD), (CHR 0xDE, CHR 0xFE)]"

definition lowerChar :: "char \<Rightarrow> char" where
  "lowerChar c = (case map_of caseTable c of Some l \<Rightarrow> l | None \<Rightarrow> c)"

definition toLowerCase :: "string \<Rightarrow> string" where
  "toLowerCase s = map lowerChar s"

subsection \<open>\<open>Number(string)\<close>\<close>

text \<open>
  The conversion of a string to a number (StringToNumber): white space is trimmed, the
  empty string is 0, then a binary, octal or hexadecimal integer literal, or an
  optionally signed \<open>Infinity\<close> or decimal literal with optional fraction and exponent;
  anything else is NaN.  The exact value is rounded to a double.
\<close>

fun indexOf :: "char \<Rightarrow> string \<Rightarrow> nat option" where
  "indexOf c [] = None"
| "indexOf c (d # ds) = (if c = d then Some 0 else map_option Suc (indexOf c ds))"

definition digitValue :: "nat \<Rightarrow> char \<Rightarrow> nat option" where
  "digitValue base c =
     (case (case indexOf c ''0123456789abcdef'' of
              Some v \<Rightarrow> Some v
            | None \<Rightarrow> map_option (\<lambda>v. v + 10) (indexOf c ''ABCDEF'')) of
        Some v \<Rightarrow> (if v < base then Some v else None)
      | None \<Rightarrow> None)"

definition isDigit :: "char \<Rightarrow> bool" where
  "isDigit c = (digitValue 10 c \<noteq> None)"

definition digitsValue :: "nat \<Rightarrow> string \<Rightarrow> nat" where
  "digitsValue base s = foldl (\<lambda>acc c. acc * base + (case digitValue base c of Some v \<Rightarrow> v | None \<Rightarrow> 0)) 0 s"

definition allDigits :: "nat \<Rightarrow> string \<Rightarrow> bool" where
  "allDigits base s = (s \<noteq> [] \<and> (\<forall>c \<in> set s. digitValue base c \<noteq> None))"

definition nonDecimalLiteral :: "string \<Rightarrow> nat option" where
  "nonDecimalLiteral s = (case s of
       z # x # ds \<Rightarrow>
         (if z \<noteq> CHR ''0'' then None
          else (let base = (if x \<in> {CHR ''x'', CHR ''X''} then 16
                            else if x \<in> {CHR ''o'', CHR ''O''} then 8
                            else if x \<in> {CHR ''b'', CHR ''B''} then 2 else (0::nat))
                in if base \<noteq> 0 \<and> allDigits base ds then Some (digitsValue base ds) else None))
     | _ \<Rightarrow> None)"

definition exponentPart :: "string \<Rightarrow> int option" where
  "exponentPart s = (case s of
       [] \<Rightarrow> Some 0
     | e # r \<Rightarrow>
         (if e \<notin> {CHR ''e'', CHR ''E''} then None
          else (case r of
                  CHR ''+'' # ds \<Rightarrow> (if allDigits 10 ds then Some (int (digitsValue 10 ds)) else None)
                | CHR ''-'' # ds \<Rightarrow> (if allDigits 10 ds then Some (- int (digitsValue 10 ds)) else None)
                | ds \<Rightarrow> (if allDigits 10 ds then Some (int (digitsValue 10 ds)) else None))))"

definition unsignedDecimal :: "string \<Rightarrow> rat option" where
  "unsignedDecimal s =
     (let ip = takeWhile isDigit s;
          r1 = dropWhile isDigit s;
          fp = (case r1 of CHR ''.'' # t \<Rightarrow> takeWhile isDigit t | _ \<Rightarrow> []);
          r2 = (case r1 of CHR ''.'' # t \<Rightarrow> dropWhile isDigit t | _ \<Rightarrow> r1)
      in if ip = [] \<and> fp = [] then None
         else (case exponentPart r2 of
                 None \<Rightarrow> None
               | Some ex \<Rightarrow> Some (of_nat (digitsValue 10 (ip @ fp)) * 10 powi (ex - int (length fp)))))"

definition unsignedLiteral :: "string \<Rightarrow> num" where
  "unsignedLiteral s = (if s = ''Infinity'' then PInf
     else (case unsignedDecimal s of None \<Rightarrow> NaN | Some v \<Rightarrow> fl v))"

definition Number :: "string \<Rightarrow> num" where
  "Number s0 = (let s = trim s0 in
     if s = [] then Fin 0
     else (case nonDecimalLiteral s of
             Some n \<Rightarrow> fl (of_nat n)
           | None \<Rightarrow>
               (case s of
                  CHR ''+'' # r \<Rightarrow> unsignedLiteral r
                | CHR ''-'' # r \<Rightarrow> nneg (unsignedLiteral r)
                | _ \<Rightarrow> unsignedLiteral s)))"

text \<open>\<open>Number(x)\<close> at an array position that destructuring left \<open>undefined\<close> is NaN.\<close>

definition NumberOpt :: "string option \<Rightarrow> num" where
  "NumberOpt x = (case x of None \<Rightarrow> NaN | Some s \<Rightarrow> Number s)"

section \<open>JavaScript values\<close>

text \<open>
  The values a parsed workflow file is made of.  An object is the list of its own
  enumerable properties in enumeration order.  \<open>JFun\<close> is a built-in function reached
  through a prototype.  A computation that can throw a TypeError returns an option:
  \<open>None\<close> is the throw.
\<close>

datatype jsval = JUndef | JNull | JBool bool | JNum num | JStr string
  | JArr "jsval list" | JObj "(string \<times> jsval) list" | JFun string

fun truthy :: "jsval \<Rightarrow> bool" where
  "truthy JUndef = False"
| "truthy JNull = False"
| "truthy (JBool b) = b"
| "truthy (JNum n) = (n \<noteq> NaN \<and> n \<noteq> Fin 0)"
| "truthy (JStr s) = (s \<noteq> [])"
| "truthy _ = True"

fun typeof :: "jsval \<Rightarrow> string" where
  "typeof JUndef = ''undefined''"
| "typeof JNull = ''object''"
| "typeof (JBool _) = ''boolean''"
| "typeof (JNum _) = ''number''"
| "typeof (JStr _) = ''string''"
| "typeof (JFun _) = ''function''"
| "typeof _ = ''object''"

fun isArray :: "jsval \<Rightarrow> bool" where
  "isArray (JArr _) = True"
| "isArray _ = False"

definition arrayMethods :: "string list" where
  "arrayMethods = [''at'', ''concat'', ''copyWithin'', ''entries'', ''every'', ''fill'',
     ''filter'', ''find'', ''findIndex'', ''findLast'', ''findLastIndex'', ''flat'',
     ''flatMap'', ''forEach'', ''includes'', ''indexOf'', ''join'', ''keys'',
     ''lastIndexOf'', ''map'', ''pop'', ''push'', ''reduce'', ''reduceRight'', ''reverse'',
     ''shift'', ''slice'', ''some'', ''sort'', ''splice'', ''toLocaleString'', ''toReversed'',
     ''toSorted'', ''toSpliced'', ''toString'', ''unshift'', ''values'', ''with'']"

text \<open>
  Reading a property \<open>v.k\<close>.  It throws on \<open>undefined\<close> and \<open>null\<close>.  The analyser
  reads the names \<open>on\<close>, \<open>jobs\<close>, \<open>steps\<close>, \<open>strategy\<close>, \<open>matrix\<close>, \<open>name\<close>, \<open>uses\<close>,
  \<open>run\<close>, \<open>cron\<close>, \<open>push\<close>, \<open>pull_request\<close>, \<open>schedule\<close>, \<open>tags\<close>, \<open>branches\<close>,
  \<open>branches-ignore\<close>, \<open>paths\<close> and \<open>paths-ignore\<close>; for these the function is exact: an
  object gives its own property, an array gives the method it inherits under that name
  (\<open>push\<close> is one), and every other value gives \<open>undefined\<close>.
\<close>

fun getProp :: "jsval \<Rightarrow> string \<Rightarrow> jsval option" where
  "getProp JUndef k = None"
| "getProp JNull k = None"
| "getProp (JObj kvs) k = Some (case map_of kvs k of Some v \<Rightarrow> v | None \<Rightarrow> JUndef)"
| "getProp (JArr xs) k =
     Some (if k = ''length'' then JNum (Fin (of_nat (length xs)))
           else if k \<in> set arrayMethods then JFun k else JUndef)"
| "getProp _ k = Some JUndef"

text \<open>\<open>Object.prototype.hasOwnProperty.call(v, k)\<close>, for the names above.\<close>

fun hasOwn :: "jsval \<Rightarrow> string \<Rightarrow> bool" where
  "hasOwn (JObj kvs) k = (k \<in> set (map fst kvs))"
| "hasOwn _ k = False"

function showNat :: "nat \<Rightarrow> string" where
  "showNat n = (if n < 10 then [''0123456789'' ! n] else showNat (n div 10) @ [''0123456789'' ! (n mod 10)])"
  by pat_completeness auto
termination
  by (relation "measure id") auto

text \<open>
  \<open>Object.values\<close> and \<open>Object.entries\<close>: they throw on \<open>undefined\<close> and \<open>null\<close>, list
  the elements of an array under their indices and the characters of a string, and find
  nothing in a number, a boolean or a function.
\<close>

fun objectEntries :: "jsval \<Rightarrow> (string \<times> jsval) list option" where
  "objectEntries JUndef = None"
| "objectEntries JNull = None"
| "objectEntries (JObj kvs) = Some kvs"
| "objectEntries (JArr xs) = Some (zip (map showNat [0..<length xs]) xs)"
| "objectEntries (JStr s) = Some (zip (map showNat [0..<length s]) (map (\<lambda>c. JStr [c]) s))"
| "objectEntries _ = Some []"

definition objectValues :: "jsval \<Rightarrow> jsval list option" where
  "objectValues v = map_option (map snd) (objectEntries v)"

text \<open>
  \<open>v.includes(k)\<close> with a string argument: substring search on a string, membership in
  an array; any other value has no such method and the call throws.
\<close>

fun includesMethod :: "jsval \<Rightarrow> string \<Rightarrow> bool option" where
  "includesMethod (JStr s) k = Some (str_includes s k)"
| "includesMethod (JArr xs) k = Some (JStr k \<in> set xs)"
| "includesMethod _ k = None"

text \<open>\<open>v.toLowerCase()\<close>: only a string has the method.\<close>

fun toLowerCaseMethod :: "jsval \<Rightarrow> string option" where
  "toLowerCaseMethod (JStr s) = Some (toLowerCase s)"
| "toLowerCaseMethod _ = None"

text \<open>Loops whose body can throw: \<open>reduce\<close> (also \<open>for ... of\<close> with an accumulator) and \<open>some\<close>.\<close>

fun reduceM :: "('a \<Rightarrow> 'b \<Rightarrow> 'a option) \<Rightarrow> 'a \<Rightarrow> 'b list \<Rightarrow> 'a option" where
  "reduceM f acc [] = Some acc"
| "reduceM f acc (x # xs) = (case f acc x of None \<Rightarrow> None | Some acc' \<Rightarrow> reduceM f acc' xs)"

fun someM :: "('b \<Rightarrow> bool option) \<Rightarrow> 'b list \<Rightarrow> bool option" where
  "someM p [] = Some False"
| "someM p (x # xs) = (case p x of None \<Rightarrow> None | Some True \<Rightarrow> Some True | Some False \<Rightarrow> someM p xs)"

section \<open>The cost analyser\<close>

definition DAYS_PER_MONTH :: num where "DAYS_PER_MONTH = Fin 30"
definition DEFAULT_PULL_REQUEST_FACTOR :: num where "DEFAULT_PULL_REQUEST_FACTOR = fl (8 / 10)"
definition DEFAULT_MANUAL_RUNS_PER_MONTH :: num where "DEFAULT_MANUAL_RUNS_PER_MONTH = Fin 1"
definition DEFAULT_RELEASE_RUNS_PER_MONTH :: num where "DEFAULT_RELEASE_RUNS_PER_MONTH = Fin 1"

subsection \<open>\<open>estimateWorkflowDuration\<close> and \<open>calculateMatrixSize\<close>\<close>

definition calculateMatrixSize :: "jsval \<Rightarrow> num option" where
  "calculateMatrixSize matrix = do {
     vs \<leftarrow> objectValues matrix;
     Some (foldl (\<lambda>size values.
             (case values of JArr xs \<Rightarrow> nmul size (Fin (of_nat (length xs))) | _ \<Rightarrow> size))
           (Fin 1) vs)
   }"

text \<open>One step of the inner loop: the minutes the step adds to its job.\<close>

definition stepMinutes :: "jsval \<Rightarrow> num option" where
  "stepMinutes step = do {
     name \<leftarrow> getProp step ''name'';
     if truthy name then do {
       stepName \<leftarrow> toLowerCaseMethod name;
       Some (if str_includes stepName ''test'' \<or> str_includes stepName ''e2e'' then Fin 10
             else if str_includes stepName ''build'' \<or> str_includes stepName ''compile'' then Fin 5
             else if str_includes stepName ''deploy'' \<or> str_includes stepName ''publish'' then Fin 3
             else if str_includes stepName ''install'' \<or> str_includes stepName ''setup'' then Fin 2
             else Fin 1)
     } else Some (Fin 1)
   }"

text \<open>The body of the loop over the jobs: the minutes of one job.\<close>

definition jobMinutes :: "jsval \<Rightarrow> num option" where
  "jobMinutes job = do {
     steps \<leftarrow> getProp job ''steps'';
     m1 \<leftarrow> (case steps of
              JArr ss \<Rightarrow> do {
                m \<leftarrow> reduceM (\<lambda>m step. map_option (nadd m) (stepMinutes step)) (Fin 5) ss;
                Some (nmin m (Fin 60))
              }
            | _ \<Rightarrow> Some (Fin 5));
     strategy \<leftarrow> getProp job ''strategy'';
     if truthy strategy then do {
       matrix \<leftarrow> getProp strategy ''matrix'';
       if truthy matrix then do {
         matrixSize \<leftarrow> calculateMatrixSize matrix;
         Some (nmul m1 matrixSize)
       } else Some m1
     } else Some m1
   }"

definition estimateWorkflowDuration :: "jsval \<Rightarrow> num option" where
  "estimateWorkflowDuration workflow = do {
     jobs \<leftarrow> getProp workflow ''jobs'';
     if \<not> truthy jobs then Some (Fin 0)
     else do {
       js \<leftarrow> objectValues jobs;
       totalMinutes \<leftarrow> reduceM (\<lambda>total' job. map_option (nadd total') (jobMinutes job)) (Fin 0) js;
       Some (nceil totalMinutes)
     }
   }"

subsection \<open>\<open>normalizeTriggers\<close>\<close>

text \<open>\<open>acc[k] = v\<close> on the property list of an object.\<close>

definition setProp :: "(string \<times> jsval) list \<Rightarrow> string \<Rightarrow> jsval \<Rightarrow> (string \<times> jsval) list" where
  "setProp kvs k v =
     (if k \<in> set (map fst kvs) then map (\<lambda>(k', v'). if k' = k then (k', v) else (k', v')) kvs
      else kvs @ [(k, v)])"

definition normalizeTriggers :: "jsval \<Rightarrow> jsval" where
  "normalizeTriggers onConfig =
     (if \<not> truthy onConfig then JObj []
      else (case onConfig of
              JStr s \<Rightarrow> JObj [(s, JBool True)]
            | JArr xs \<Rightarrow>
                JObj (foldl (\<lambda>acc eventName.
                        (case eventName of JStr s \<Rightarrow> setProp acc s (JBool True) | _ \<Rightarrow> acc)) [] xs)
            | JObj kvs \<Rightarrow> onConfig
            | _ \<Rightarrow> JObj []))"

subsection \<open>\<open>countCronFieldSlots\<close>\<close>

text \<open>
  The branch for a field with a slash.  \<open>None\<close> means that no \<open>return\<close> of the branch
  was reached and control falls through to the range test.  A position that the
  destructuring of a split leaves \<open>undefined\<close> converts to NaN, which returns 1.
\<close>

definition slashSlots :: "string \<Rightarrow> num \<Rightarrow> num option" where
  "slashSlots field maxSlots =
     (case splitOn CHR ''/'' field of
        base # stepRaw # _ \<Rightarrow>
          (let step = Number stepRaw in
           if \<not> isFinite step \<or> nle step (Fin 0) then Some (Fin 1)
           else if base = [] \<or> base = ''*'' then
             Some (nmax (Fin 1) (nceil (ndiv maxSlots step)))
           else if str_includes base ''-'' then
             (case splitOn CHR ''-'' base of
                startRaw # endRaw # _ \<Rightarrow>
                  (let startN = Number startRaw; endN = Number endRaw in
                   if \<not> isFinite startN \<or> \<not> isFinite endN \<or> nlt endN startN then Some (Fin 1)
                   else Some (nmax (Fin 1)
                          (nceil (ndiv (nadd (nsub endN startN) (Fin 1)) step))))
              | _ \<Rightarrow> Some (Fin 1))
           else None)
      | _ \<Rightarrow> Some (Fin 1))"

definition rangeSlots :: "string \<Rightarrow> num" where
  "rangeSlots field =
     (case splitOn CHR ''-'' field of
        startRaw # endRaw # _ \<Rightarrow>
          (let startN = Number startRaw; endN = Number endRaw in
           if \<not> isFinite startN \<or> \<not> isFinite endN \<or> nlt endN startN then Fin 1
           else nmax (Fin 1) (nadd (nsub endN startN) (Fin 1)))
      | _ \<Rightarrow> Fin 1)"

lemma length_trim_le: "length (trim s) \<le> length s"
proof -
  have "length (trim s) \<le> length (dropWhile isWhite s)"
    unfolding trim_def using length_dropWhile_le[of isWhite "rev (dropWhile isWhite s)"] by simp
  also have "\<dots> \<le> length s" by (rule length_dropWhile_le)
  finally show ?thesis .
qed

lemma splitOn_not_Nil: "splitOn sep s \<noteq> []"
  by (induction s) (auto split: list.splits)

lemma splitOn_piece_length:
  "p \<in> set (splitOn sep s) \<Longrightarrow> sep \<in> set s \<Longrightarrow> length p < length s"
proof (induction s arbitrary: p)
  case Nil
  then show ?case by simp
next
  case (Cons c cs)
  have le: "\<And>q. q \<in> set (splitOn sep cs) \<Longrightarrow> length q \<le> length cs"
  proof -
    fix q assume q: "q \<in> set (splitOn sep cs)"
    show "length q \<le> length cs"
    proof (cases "sep \<in> set cs")
      case True
      then show ?thesis using Cons.IH[OF q] by simp
    next
      case False
      have "\<And>t. sep \<notin> set t \<Longrightarrow> splitOn sep t = [t]"
      proof -
        fix t show "sep \<notin> set t \<Longrightarrow> splitOn sep t = [t]"
          by (induction t) auto
      qed
      then show ?thesis using False q by simp
    qed
  qed
  show ?case
  proof (cases "c = sep")
    case True
    then show ?thesis using Cons.prems le by (auto simp: less_Suc_eq_le)
  next
    case False
    then have sepcs: "sep \<in> set cs" using Cons.prems by auto
    obtain q qs where qs: "splitOn sep cs = q # qs"
      using splitOn_not_Nil by (cases "splitOn sep cs") auto
    then have "p = c # q \<or> p \<in> set qs" using False Cons.prems by auto
    then show ?thesis
    proof
      assume "p = c # q"
      then show ?thesis using Cons.IH[of q] qs sepcs by simp
    next
      assume "p \<in> set qs"
      then show ?thesis using Cons.IH[of p] qs sepcs by simp
    qed
  qed
qed

lemma str_includes_single: "str_includes s [c] \<longleftrightarrow> c \<in> set s"
proof (induction s)
  case Nil
  then show ?case by simp
next
  case (Cons a s)
  have "startsWith (a # s) [c] \<longleftrightarrow> a = c" by (cases s) auto
  then show ?case using Cons by auto
qed

function countCronFieldSlots :: "string \<Rightarrow> num \<Rightarrow> num" where
  "countCronFieldSlots field maxSlots =
     (if field = [] \<or> field = ''*'' then Fin 1
      else if str_includes field '','' then
        foldl (\<lambda>sum part. nadd sum (countCronFieldSlots part maxSlots)) (Fin 0)
          (map trim (splitOn CHR '','' field))
      else (case (if str_includes field ''/'' then slashSlots field maxSlots else None) of
              Some n \<Rightarrow> n
            | None \<Rightarrow> if str_includes field ''-'' then rangeSlots field else Fin 1))"
  by pat_completeness auto
termination
proof (relation "measure (\<lambda>(field, maxSlots). length field)")
  show "wf (measure (\<lambda>(field, maxSlots). length field))" by simp
next
  fix field :: string and maxSlots :: num and part :: string
  assume inc: "str_includes field '',''"
    and part: "part \<in> set (map trim (splitOn CHR '','' field))"
  from part obtain p where p: "p \<in> set (splitOn CHR '','' field)" and pt: "part = trim p" by auto
  from inc have "CHR '','' \<in> set field" by (simp add: str_includes_single)
  with p have "length p < length field" by (rule splitOn_piece_length)
  then have "length part < length field" using length_trim_le[of p] pt by simp
  then show "((part, maxSlots), (field, maxSlots)) \<in> measure (\<lambda>(field, maxSlots). length field)"
    by simp
qed

subsection \<open>\<open>estimateScheduleRunsPerMonth\<close>\<close>

text \<open>The callback of the \<open>reduce\<close>: the running total with one schedule entry added.\<close>

definition scheduleReducer :: "num \<Rightarrow> jsval \<Rightarrow> num option" where
  "scheduleReducer total' entry = do {
     cron \<leftarrow> (if truthy entry then do {
                c \<leftarrow> getProp entry ''cron'';
                Some (case c of JStr s \<Rightarrow> trim s | _ \<Rightarrow> [])
              } else Some []);
     (case splitWs cron of
        [minuteField, hourField, dayOfMonthField, monthField, dayOfWeekField] \<Rightarrow>
          (let minuteSlots = countCronFieldSlots minuteField (Fin 60);
               hourSlots = countCronFieldSlots hourField (Fin 24);
               timeSlots = nmax (Fin 1) (nmul minuteSlots hourSlots);
               baseRuns = (if dayOfWeekField \<noteq> ''*'' then Fin 4
                           else if dayOfMonthField \<noteq> ''*'' then Fin 1
                           else if monthField \<noteq> ''*'' then Fin 1
                           else DAYS_PER_MONTH)
           in Some (nadd total' (nmax (Fin 1) (nceil (nmul baseRuns timeSlots)))))
      | _ \<Rightarrow> Some (nadd total' (Fin 4)))
   }"

definition estimateScheduleRunsPerMonth :: "jsval \<Rightarrow> num option" where
  "estimateScheduleRunsPerMonth scheduleConfig =
     (let schedules = (case scheduleConfig of
                         JArr xs \<Rightarrow> xs
                       | _ \<Rightarrow> if truthy scheduleConfig then [scheduleConfig] else [])
      in if length schedules = 0 then Some (Fin 0)
         else reduceM scheduleReducer (Fin 0) schedules)"

subsection \<open>\<open>estimateWorkflowRunsPerMonth\<close>\<close>

text \<open>The tuning options: each override is a number or absent.\<close>

record options =
  pullRequestFactor :: "num option"
  manualRunsPerMonth :: "num option"
  releaseRunsPerMonth :: "num option"

definition noOptions :: options where
  "noOptions = \<lparr>pullRequestFactor = None, manualRunsPerMonth = None, releaseRunsPerMonth = None\<rparr>"

text \<open>\<open>x || d\<close> for an optional number: \<open>d\<close> when \<open>x\<close> is absent, zero or NaN.\<close>

definition orDefault :: "num option \<Rightarrow> num \<Rightarrow> num" where
  "orDefault x d = (case x of Some n \<Rightarrow> if truthy (JNum n) then n else d | None \<Rightarrow> d)"

text \<open>The flags the function computes from the normalized triggers.\<close>

definition pushIsTagOnly :: "jsval \<Rightarrow> bool option" where
  "pushIsTagOnly triggers = do {
     pushConfig \<leftarrow> (if hasOwn triggers ''push'' then do {
                      push \<leftarrow> getProp triggers ''push'';
                      Some (if typeof push = ''object'' then push else JNull)
                    } else Some JNull);
     if \<not> truthy pushConfig then Some False
     else do {
       tags \<leftarrow> getProp pushConfig ''tags'';
       branches \<leftarrow> getProp pushConfig ''branches'';
       branchesIgnore \<leftarrow> getProp pushConfig ''branches-ignore'';
       Some ((case tags of JArr ts \<Rightarrow> 0 < length ts | _ \<Rightarrow> False)
             \<and> \<not> truthy branches \<and> \<not> truthy branchesIgnore)
     }
   }"

definition estimateWorkflowRunsPerMonth :: "jsval \<Rightarrow> num \<Rightarrow> options \<Rightarrow> num option" where
  "estimateWorkflowRunsPerMonth workflow commitsPerDay opts = do {
     onConfig \<leftarrow> (if truthy workflow then getProp workflow ''on'' else Some workflow);
     let triggers = normalizeTriggers onConfig;
     let commitsPerMonth = nceil (nmul commitsPerDay DAYS_PER_MONTH);
     let pullRequestFactor = orDefault (pullRequestFactor opts) DEFAULT_PULL_REQUEST_FACTOR;
     let manualRunsPerMonth = orDefault (manualRunsPerMonth opts) DEFAULT_MANUAL_RUNS_PER_MONTH;
     let releaseRunsPerMonth = orDefault (releaseRunsPerMonth opts) DEFAULT_RELEASE_RUNS_PER_MONTH;
     let hasPush = hasOwn triggers ''push'';
     let hasPullRequest = hasOwn triggers ''pull_request'';
     let hasSchedule = hasOwn triggers ''schedule'';
     let hasWorkflowDispatch = hasOwn triggers ''workflow_dispatch'';
     let hasRelease = hasOwn triggers ''release'';
     let hasCreate = hasOwn triggers ''create'';
     tagOnly \<leftarrow> pushIsTagOnly triggers;
     let hasCommitPush = (hasPush \<and> \<not> tagOnly);
     let hasTagPush = (hasPush \<and> tagOnly);
     let r0 = Fin 0;
     let r1 = (if hasCommitPush then nadd r0 commitsPerMonth else r0);
     let r2 = (if hasPullRequest then nadd r1 (nceil (nmul commitsPerMonth pullRequestFactor)) else r1);
     r3 \<leftarrow> (if hasSchedule then do {
              schedule \<leftarrow> getProp triggers ''schedule'';
              scheduled \<leftarrow> estimateScheduleRunsPerMonth schedule;
              Some (nadd r2 scheduled)
            } else Some r2);
     let r4 = (if hasTagPush \<or> hasRelease \<or> hasCreate then nadd r3 releaseRunsPerMonth else r3);
     let hasOnlyManualTrigger = (hasWorkflowDispatch \<and> \<not> hasCommitPush \<and> \<not> hasPullRequest
                                 \<and> \<not> hasSchedule \<and> \<not> hasTagPush \<and> \<not> hasRelease \<and> \<not> hasCreate);
     let r5 = (if hasOnlyManualTrigger then nadd r4 manualRunsPerMonth else r4);
     let runsPerMonth = (if num_eq r5 (Fin 0) then commitsPerMonth else r5);
     Some (nmax (Fin 1) (nceil runsPerMonth))
   }"

subsection \<open>\<open>calculateMonthlyCosts\<close>\<close>

text \<open>
  The records the caller builds from a workflow file: the file name and path, the
  estimated minutes per run, and the parsed content (\<open>JUndef\<close> when there is none).
\<close>

record workflowRecord =
  wf_name :: string
  wf_path :: string
  wf_estimatedDuration :: num
  wf_parsed :: jsval

text \<open>The record seen as a JavaScript object, for \<open>wf.parsed || wf\<close>.\<close>

definition recordObject :: "workflowRecord \<Rightarrow> jsval" where
  "recordObject wflow = JObj [(''name'', JStr (wf_name wflow)), (''path'', JStr (wf_path wflow)),
     (''estimatedDuration'', JNum (wf_estimatedDuration wflow)), (''parsed'', wf_parsed wflow)]"

text \<open>The spread \<open>{...wf, runsPerMonth, minutesPerMonth}\<close> extends the record.\<close>

record enrichedWorkflow = workflowRecord +
  wf_runsPerMonth :: num
  wf_minutesPerMonth :: num

record breakdownItem =
  item_name :: string
  item_minutesPerRun :: num
  item_runsPerMonth :: num
  item_minutesPerMonth :: num

record budgetReport =
  target :: num
  stretch :: num
  withinTarget :: bool
  withinStretch :: bool

record tierReport =
  limit :: num
  overage :: num
  cost :: num
  withinLimit :: bool

record teamTierReport = tierReport +
  monthlyCost :: num

record tiersReport =
  free :: tierReport
  team :: teamTierReport

record costReport =
  total_minutesPerMonth :: num
  minutesPerDay :: num
  workflowRunsPerDay :: num
  breakdown :: "breakdownItem list"
  budgets :: budgetReport
  tiers :: tiersReport

fun mapM :: "('a \<Rightarrow> 'b option) \<Rightarrow> 'a list \<Rightarrow> 'b list option" where
  "mapM f [] = Some []"
| "mapM f (x # xs) = (case f x of None \<Rightarrow> None
      | Some y \<Rightarrow> (case mapM f xs of None \<Rightarrow> None | Some ys \<Rightarrow> Some (y # ys)))"

definition enrich :: "num \<Rightarrow> options \<Rightarrow> workflowRecord \<Rightarrow> enrichedWorkflow option" where
  "enrich commitsPerDay opts wflow = do {
     runs \<leftarrow> estimateWorkflowRunsPerMonth
               (if truthy (wf_parsed wflow) then wf_parsed wflow else recordObject wflow) commitsPerDay opts;
     let minutes = nceil (nmul (wf_estimatedDuration wflow) runs);
     Some \<lparr>wf_name = wf_name wflow, wf_path = wf_path wflow,
           wf_estimatedDuration = wf_estimatedDuration wflow, wf_parsed = wf_parsed wflow,
           wf_runsPerMonth = runs, wf_minutesPerMonth = minutes\<rparr>
   }"

definition FREE_TIER_MINUTES :: num where "FREE_TIER_MINUTES = Fin 2000"
definition TEAM_TIER_MINUTES :: num where "TEAM_TIER_MINUTES = Fin 3000"
definition COST_PER_MINUTE :: num where "COST_PER_MINUTE = fl (8 / 1000)"
definition TARGET_BUDGET_MINUTES :: num where "TARGET_BUDGET_MINUTES = Fin 1000"
definition STRETCH_BUDGET_MINUTES :: num where "STRETCH_BUDGET_MINUTES = Fin 1500"

definition calculateMonthlyCosts :: "workflowRecord list \<Rightarrow> num \<Rightarrow> options \<Rightarrow> costReport option" where
  "calculateMonthlyCosts workflows commitsPerDay opts = do {
     enrichedWorkflows \<leftarrow> mapM (enrich commitsPerDay opts) workflows;
     let totalWorkflowRunsPerMonth = foldl (\<lambda>total' wflow. nadd total' (wf_runsPerMonth wflow)) (Fin 0) enrichedWorkflows;
     let minutesPerMonth = foldl (\<lambda>total' wflow. nadd total' (wf_minutesPerMonth wflow)) (Fin 0) enrichedWorkflows;
     let minutesPerDay = ndiv minutesPerMonth DAYS_PER_MONTH;
     let workflowRunsPerDay = ndiv totalWorkflowRunsPerMonth DAYS_PER_MONTH;
     let freeOverage = nmax (Fin 0) (nsub minutesPerMonth FREE_TIER_MINUTES);
     let teamOverage = nmax (Fin 0) (nsub minutesPerMonth TEAM_TIER_MINUTES);
     let freeOverageCost = nmul freeOverage COST_PER_MINUTE;
     let teamOverageCost = nmul teamOverage COST_PER_MINUTE;
     Some \<lparr>total_minutesPerMonth = minutesPerMonth,
           minutesPerDay = minutesPerDay,
           workflowRunsPerDay = workflowRunsPerDay,
           breakdown = map (\<lambda>wflow. \<lparr>item_name = wf_name wflow,
                                   item_minutesPerRun = wf_estimatedDuration wflow,
                                   item_runsPerMonth = wf_runsPerMonth wflow,
                                   item_minutesPerMonth = wf_minutesPerMonth wflow\<rparr>)
                         enrichedWorkflows,
           budgets = \<lparr>target = TARGET_BUDGET_MINUTES,
                      stretch = STRETCH_BUDGET_MINUTES,
                      withinTarget = nle minutesPerMonth TARGET_BUDGET_MINUTES,
                      withinStretch = nle minutesPerMonth STRETCH_BUDGET_MINUTES\<rparr>,
           tiers = \<lparr>free = \<lparr>limit = FREE_TIER_MINUTES,
                             overage = freeOverage,
                             cost = freeOverageCost,
                             withinLimit = nle minutesPerMonth FREE_TIER_MINUTES\<rparr>,
                    team = \<lparr>limit = TEAM_TIER_MINUTES,
                             overage = teamOverage,
                             cost = teamOverageCost,
                             withinLimit = nle minutesPerMonth TEAM_TIER_MINUTES,
                             monthlyCost = Fin 4\<rparr>\<rparr>\<rparr>
   }"

subsection \<open>\<open>analyzeOptimizations\<close>\<close>

text \<open>
  A template literal is kept as the list of its parts: the text, with the strings
  substituted into it, and the numbers substituted into it as numbers.
\<close>

datatype piece = Lit string | Val num

record recommendation =
  rec_type :: string
  rec_workflow :: string
  rec_job :: "string option"
  title :: string
  description :: "piece list"
  action :: "piece list"
  potentialSavings :: num
  savingsPerRun :: num
  priority :: string

definition quoted :: "string \<Rightarrow> string" where
  "quoted s = [CHR 0x22] @ s @ [CHR 0x22]"

text \<open>1. Detect missing caching.\<close>

definition usesCache :: "jsval \<Rightarrow> bool option" where
  "usesCache step = do {
     uses \<leftarrow> getProp step ''uses'';
     if \<not> truthy uses then Some False
     else do {
       a \<leftarrow> includesMethod uses ''actions/cache'';
       if a then Some True else includesMethod uses ''actions/setup-node''
     }
   }"

definition runsInstall :: "jsval \<Rightarrow> bool option" where
  "runsInstall step = do {
     run \<leftarrow> getProp step ''run'';
     if \<not> truthy run then Some False
     else do {
       a \<leftarrow> includesMethod run ''npm install'';
       if a then Some True else do {
         b \<leftarrow> includesMethod run ''yarn install'';
         if b then Some True else do {
           c \<leftarrow> includesMethod run ''pnpm install'';
           if c then Some True else includesMethod run ''pip install''
         }
       }
     }
   }"

definition cachingRecommendations :: "string \<Rightarrow> num \<Rightarrow> string \<Rightarrow> jsval \<Rightarrow> recommendation list option" where
  "cachingRecommendations workflowName runsPerMonth jobName job = do {
     steps \<leftarrow> getProp job ''steps'';
     (case steps of
        JArr ss \<Rightarrow> do {
          hasCaching \<leftarrow> someM usesCache ss;
          hasInstall \<leftarrow> someM runsInstall ss;
          if hasInstall \<and> \<not> hasCaching then
            (let savingsPerRun = Fin 3;
                 savingsPerMonth = nceil (nmul savingsPerRun runsPerMonth)
             in Some [\<lparr>rec_type = ''caching'',
                       rec_workflow = workflowName,
                       rec_job = Some jobName,
                       title = ''Add dependency caching'',
                       description = [Lit (''Job '' @ quoted jobName @
                          '' installs dependencies but doesn'' @ [CHR 0x27] @ ''t cache them'')],
                       action = [Lit ''Add actions/cache before install step''],
                       potentialSavings = savingsPerMonth,
                       savingsPerRun = savingsPerRun,
                       priority = ''high''\<rparr>])
          else Some []
        }
      | _ \<Rightarrow> Some [])
   }"

text \<open>2. Detect oversized matrix strategies.\<close>

definition matrixRecommendations :: "string \<Rightarrow> num \<Rightarrow> num \<Rightarrow> string \<Rightarrow> jsval \<Rightarrow> recommendation list option" where
  "matrixRecommendations workflowName currentMinutes runsPerMonth jobName job = do {
     strategy \<leftarrow> getProp job ''strategy'';
     if \<not> truthy strategy then Some []
     else do {
       matrix \<leftarrow> getProp strategy ''matrix'';
       if \<not> truthy matrix then Some []
       else do {
         matrixSize \<leftarrow> calculateMatrixSize matrix;
         if nge matrixSize (Fin 6) then
           (let reductionFactor = Fin (1 / 2);
                savingsPerMonth = nceil (nmul (nmul currentMinutes reductionFactor) runsPerMonth)
            in Some [\<lparr>rec_type = ''matrix'',
                      rec_workflow = workflowName,
                      rec_job = Some jobName,
                      title = ''Reduce matrix size'',
                      description = [Lit (''Job '' @ quoted jobName @ '' runs ''), Val matrixSize,
                                     Lit '' matrix combinations''],
                      action = [Lit ''Consider testing only LTS + latest versions (reduce to '',
                                Val (nceil (ndiv matrixSize (Fin 2))), Lit '' combinations)''],
                      potentialSavings = savingsPerMonth,
                      savingsPerRun = nceil (nmul currentMinutes reductionFactor),
                      priority = (if nge matrixSize (Fin 9) then ''high'' else ''medium'')\<rparr>])
         else Some []
       }
     }
   }"

text \<open>3. Detect high-frequency scheduled workflows.\<close>

definition scheduleRecommendations :: "string \<Rightarrow> num \<Rightarrow> jsval \<Rightarrow> recommendation list option" where
  "scheduleRecommendations workflowName estimatedDuration workflow = do {
     onConfig \<leftarrow> getProp workflow ''on'';
     if \<not> truthy onConfig then Some []
     else do {
       let triggers = normalizeTriggers onConfig;
       let hasSchedule = hasOwn triggers ''schedule'';
       scheduledRuns \<leftarrow> (if hasSchedule then do {
                            schedule \<leftarrow> getProp triggers ''schedule'';
                            estimateScheduleRunsPerMonth schedule
                          } else Some (Fin 0));
       let weekly =
         (if nge scheduledRuns (Fin 20) then
            (let savingsPerMonth = nceil (nmul estimatedDuration (nsub scheduledRuns (Fin 4)))
             in [\<lparr>rec_type = ''frequency'',
                  rec_workflow = workflowName,
                  rec_job = None,
                  title = ''Reduce schedule frequency'',
                  description = [Lit (quoted workflowName @ '' runs about ''), Val scheduledRuns,
                                 Lit ''x/month''],
                  action = [Lit ''Change to weekly schedule (4x/month)''],
                  potentialSavings = savingsPerMonth,
                  savingsPerRun = Fin 0,
                  priority = (if ngt savingsPerMonth (Fin 500) then ''high'' else ''medium'')\<rparr>])
          else []);
       let monthly =
         (if nge scheduledRuns (Fin 4) \<and> nlt scheduledRuns (Fin 20) then
            (let savingsPerMonth = nceil (nmul estimatedDuration (nsub scheduledRuns (Fin 1)))
             in if ngt savingsPerMonth (Fin 50) then
                  [\<lparr>rec_type = ''frequency'',
                    rec_workflow = workflowName,
                    rec_job = None,
                    title = ''Reduce schedule frequency'',
                    description = [Lit (quoted workflowName @ '' runs about ''), Val scheduledRuns,
                                   Lit ''x/month''],
                    action = [Lit ''Change to monthly schedule (1x/month)''],
                    potentialSavings = savingsPerMonth,
                    savingsPerRun = Fin 0,
                    priority = ''low''\<rparr>]
                else [])
          else []);
       Some (weekly @ monthly)
     }
   }"

text \<open>4. Detect missing path filters.\<close>

definition hasPathFilterIn :: "jsval \<Rightarrow> bool option" where
  "hasPathFilterIn config =
     (if \<not> truthy config then Some False
      else do {
        paths \<leftarrow> getProp config ''paths'';
        pathsIgnore \<leftarrow> getProp config ''paths-ignore'';
        Some (truthy paths \<or> truthy pathsIgnore)
      })"

definition pathFilterRecommendations :: "string \<Rightarrow> num \<Rightarrow> num \<Rightarrow> jsval \<Rightarrow> recommendation list option" where
  "pathFilterRecommendations workflowName estimatedDuration runsPerMonth workflow = do {
     onConfig \<leftarrow> getProp workflow ''on'';
     if \<not> (truthy onConfig \<and> typeof onConfig = ''object'') then Some []
     else do {
       push \<leftarrow> getProp onConfig ''push'';
       pullRequest \<leftarrow> getProp onConfig ''pull_request'';
       let hasPush = (truthy push \<or> truthy pullRequest);
       pushFilter \<leftarrow> hasPathFilterIn push;
       hasPathFilter \<leftarrow> (if pushFilter then Some True else hasPathFilterIn pullRequest);
       if hasPush \<and> \<not> hasPathFilter \<and> \<not> str_includes workflowName ''release'' then
         (let wastedRuns = nmul runsPerMonth (fl (2 / 10));
              savingsPerMonth = nceil (nmul estimatedDuration wastedRuns)
          in if ngt savingsPerMonth (Fin 50) then
               Some [\<lparr>rec_type = ''conditional'',
                      rec_workflow = workflowName,
                      rec_job = None,
                      title = ''Add path filters'',
                      description = [Lit (quoted workflowName @ '' runs on all commits'')],
                      action = [Lit (''Skip CI for docs-only changes (paths-ignore: ['' @
                                  quoted ''**/*.md'' @ '', '' @ quoted ''docs/**'' @ ''])'')],
                      potentialSavings = savingsPerMonth,
                      savingsPerRun = Fin 0,
                      priority = ''medium''\<rparr>]
             else Some [])
       else Some []
     }
   }"

text \<open>The body of the loop over the workflows: the recommendations one workflow adds.\<close>

definition workflowRecommendations :: "num \<Rightarrow> workflowRecord \<Rightarrow> recommendation list option" where
  "workflowRecommendations commitsPerDay wflow = do {
     let workflow = wf_parsed wflow;
     let workflowName = wf_name wflow;
     runsPerMonth \<leftarrow> estimateWorkflowRunsPerMonth workflow commitsPerDay noOptions;
     jobs \<leftarrow> getProp workflow ''jobs'';
     if \<not> truthy jobs then Some []
     else do {
       entries \<leftarrow> objectEntries jobs;
       jobRecs \<leftarrow> reduceM (\<lambda>recs (jobName, job). do {
                    caching \<leftarrow> cachingRecommendations workflowName runsPerMonth jobName job;
                    matrix \<leftarrow> matrixRecommendations workflowName (wf_estimatedDuration wflow)
                                runsPerMonth jobName job;
                    Some (recs @ caching @ matrix)
                  }) [] entries;
       frequency \<leftarrow> scheduleRecommendations workflowName (wf_estimatedDuration wflow) workflow;
       conditional \<leftarrow> pathFilterRecommendations workflowName (wf_estimatedDuration wflow)
                        runsPerMonth workflow;
       Some (jobRecs @ frequency @ conditional)
     }
   }"

text \<open>The recommendations in the order the loops push them, before the sort.\<close>

definition discoverRecommendations :: "workflowRecord list \<Rightarrow> num \<Rightarrow> recommendation list option" where
  "discoverRecommendations workflows commitsPerDay =
     reduceM (\<lambda>recommendations wflow.
                map_option (\<lambda>new. recommendations @ new) (workflowRecommendations commitsPerDay wflow))
       [] workflows"

text \<open>
  \<open>Array.prototype.sort\<close> with a comparison function: a stable sort, here by insertion.
  A result of the comparison that is positive puts the first argument after the second;
  a NaN counts as zero.  Every stable sort gives this list when the comparison is
  consistent on the array.
\<close>

fun insertBy :: "('a \<Rightarrow> 'a \<Rightarrow> num) \<Rightarrow> 'a \<Rightarrow> 'a list \<Rightarrow> 'a list" where
  "insertBy cmp x [] = [x]"
| "insertBy cmp x (y # ys) = (if ngt (cmp x y) (Fin 0) then y # insertBy cmp x ys else x # y # ys)"

definition arraySort :: "('a \<Rightarrow> 'a \<Rightarrow> num) \<Rightarrow> 'a list \<Rightarrow> 'a list" where
  "arraySort cmp xs = foldr (insertBy cmp) xs []"

definition bySavings :: "recommendation \<Rightarrow> recommendation \<Rightarrow> num" where
  "bySavings a b = nsub (potentialSavings b) (potentialSavings a)"

definition analyzeOptimizations :: "workflowRecord list \<Rightarrow> num \<Rightarrow> recommendation list option" where
  "analyzeOptimizations workflows commitsPerDay =
     map_option (arraySort bySavings) (discoverRecommendations workflows commitsPerDay)"

section \<open>The specification's side\<close>

subsection \<open>Cron entries\<close>

text \<open>
  A cron field is a non-empty string without white space; a cron string is five of them
  with single spaces between; a schedule entry is an object with the string under
  \<open>cron\<close>.
\<close>

definition wsFree :: "string \<Rightarrow> bool" where
  "wsFree f = (f \<noteq> [] \<and> (\<forall>c \<in> set f. \<not> isWhite c))"

definition cronString :: "string \<Rightarrow> string \<Rightarrow> string \<Rightarrow> string \<Rightarrow> string \<Rightarrow> string" where
  "cronString m h dm mon dow =
     m @ CHR '' '' # h @ CHR '' '' # dm @ CHR '' '' # mon @ CHR '' '' # dow"

definition cronEntry :: "string \<Rightarrow> jsval" where
  "cronEntry s = JObj [(''cron'', JStr s)]"

text \<open>
  The baseline cadence in the specification's words: 30 a month when day-of-month, month
  and day-of-week are all \<open>*\<close>; 4 when day-of-week is restricted; else 1, when
  day-of-month or month is restricted.
\<close>

definition baselineCadence :: "string \<Rightarrow> string \<Rightarrow> string \<Rightarrow> num" where
  "baselineCadence dayOfMonth month dayOfWeek =
     (if dayOfMonth = ''*'' \<and> month = ''*'' \<and> dayOfWeek = ''*'' then Fin 30
      else if dayOfWeek \<noteq> ''*'' then Fin 4
      else Fin 1)"

text \<open>
  An entry whose cron string does not split into exactly five fields.  The cron string
  of an entry without a string under \<open>cron\<close> is the empty string, which splits
  into one field.
\<close>

definition malformedEntry :: "jsval \<Rightarrow> bool" where
  "malformedEntry entry =
     (case (if truthy entry then getProp entry ''cron'' else None) of
        Some (JStr s) \<Rightarrow> length (splitWs (trim s)) \<noteq> 5
      | _ \<Rightarrow> True)"

subsection \<open>Run frequency as the specification words it\<close>


subsection \<open>Two workflows of the test suite\<close>



subsection \<open>Savings that are whole numbers\<close>

definition ceiled :: "recommendation list \<Rightarrow> bool" where
  "ceiled rs = (\<forall>r \<in> set rs. nceil (potentialSavings r) = potentialSavings r)"

subsection \<open>Ranges of numbers\<close>

text \<open>
  A number that is not NaN and not negative, and one that is not NaN and at least 1;
  both may be \<open>+Infinity\<close>.
\<close>

definition nonneg :: "num \<Rightarrow> bool" where
  "nonneg n = (case n of Fin x \<Rightarrow> 0 \<le> x | PInf \<Rightarrow> True | _ \<Rightarrow> False)"

definition geOne :: "num \<Rightarrow> bool" where
  "geOne n = (case n of Fin x \<Rightarrow> 1 \<le> x | PInf \<Rightarrow> True | _ \<Rightarrow> False)"

text \<open>
  The arithmetic of \<open>estimateWorkflowRunsPerMonth\<close> once its flags and the numbers
  it adds are known: the sum, the fallback and the final maximum.
\<close>

definition combineRuns ::
  "num \<Rightarrow> num \<Rightarrow> num \<Rightarrow> num \<Rightarrow> num \<Rightarrow> bool \<Rightarrow> bool \<Rightarrow> bool \<Rightarrow> bool \<Rightarrow> bool \<Rightarrow> num" where
  "combineRuns commitsPerMonth pullRequests scheduled releaseRuns manualRuns
       hasCommitPush hasPullRequest hasSchedule hasReleaseLike hasOnlyManual =
     (let r1 = (if hasCommitPush then nadd (Fin 0) commitsPerMonth else Fin 0);
          r2 = (if hasPullRequest then nadd r1 pullRequests else r1);
          r3 = (if hasSchedule then nadd r2 scheduled else r2);
          r4 = (if hasReleaseLike then nadd r3 releaseRuns else r3);
          r5 = (if hasOnlyManual then nadd r4 manualRuns else r4)
      in nmax (Fin 1) (nceil (if num_eq r5 (Fin 0) then commitsPerMonth else r5)))"

text \<open>Tuning options whose overrides, where present, are finite and not negative.\<close>

definition nonnegOption :: "num option \<Rightarrow> bool" where
  "nonnegOption x = (case x of None \<Rightarrow> True | Some (Fin v) \<Rightarrow> 0 \<le> v | Some _ \<Rightarrow> False)"

definition nonnegOptions :: "options \<Rightarrow> bool" where
  "nonnegOptions opts = (nonnegOption (pullRequestFactor opts)
     \<and> nonnegOption (manualRunsPerMonth opts) \<and> nonnegOption (releaseRunsPerMonth opts))"

subsection \<open>The duration as the specification words it\<close>

text \<open>
  The parts of a parsed workflow the estimate reads: the jobs of the workflow, the steps
  of a job, the name of a step, and the axes of the matrix of a job.  A part that is
  absent, or is not of the kind named, is empty.
\<close>

definition propOf :: "jsval \<Rightarrow> string \<Rightarrow> jsval" where
  "propOf v k = (case getProp v k of Some x \<Rightarrow> x | None \<Rightarrow> JUndef)"

definition jobsOf :: "jsval \<Rightarrow> jsval list" where
  "jobsOf workflow = (case propOf workflow ''jobs'' of JObj js \<Rightarrow> map snd js | _ \<Rightarrow> [])"

definition stepsOf :: "jsval \<Rightarrow> jsval list" where
  "stepsOf job = (case propOf job ''steps'' of JArr ss \<Rightarrow> ss | _ \<Rightarrow> [])"

definition stepName :: "jsval \<Rightarrow> string option" where
  "stepName step =
     (case propOf step ''name'' of JStr s \<Rightarrow> (if s = [] then None else Some s) | _ \<Rightarrow> None)"

definition axesOf :: "jsval \<Rightarrow> jsval list" where
  "axesOf job =
     (case propOf (propOf job ''strategy'') ''matrix'' of JObj axes \<Rightarrow> map snd axes | _ \<Rightarrow> [])"

text \<open>
  A keyword occurs in a name, case apart: some stretch of the name of the keyword's
  length reads as the keyword once both are put in lower case.
\<close>

definition containsIgnoringCase :: "string \<Rightarrow> string \<Rightarrow> bool" where
  "containsIgnoringCase name keyword =
     list_ex (\<lambda>i. toLowerCase (take (length keyword) (drop i name)) = toLowerCase keyword)
       [0..<Suc (length name)]"

text \<open>The keyword classes in priority order, each with its minutes.\<close>

definition keywordWeights :: "(string list \<times> nat) list" where
  "keywordWeights =
     [([''test'', ''e2e''], 10),
      ([''build'', ''compile''], 5),
      ([''deploy'', ''publish''], 3),
      ([''install'', ''setup''], 2)]"

definition stepWeight :: "string option \<Rightarrow> nat" where
  "stepWeight name =
     (case name of
        None \<Rightarrow> 1
      | Some n \<Rightarrow>
          (case find (\<lambda>(keywords, minutes). list_ex (containsIgnoringCase n) keywords)
                  keywordWeights of
             Some (keywords, minutes) \<Rightarrow> minutes
           | None \<Rightarrow> 1))"

text \<open>
  The combination count: the product of the lengths of the sequence-valued axes; an
  axis that is no sequence counts 1.
\<close>

definition combinations :: "jsval list \<Rightarrow> nat" where
  "combinations axes =
     prod_list (map (\<lambda>axis. case axis of JArr xs \<Rightarrow> length xs | _ \<Rightarrow> 1) axes)"

definition jobDuration :: "jsval \<Rightarrow> nat" where
  "jobDuration job =
     min 60 (5 + sum_list (map (\<lambda>step. stepWeight (stepName step)) (stepsOf job)))
       * combinations (axesOf job)"

definition durationSpec :: "jsval \<Rightarrow> nat" where
  "durationSpec workflow =
     nat \<lceil>(of_nat (sum_list (map jobDuration (jobsOf workflow))) :: rat)\<rceil>"

text \<open>
  The documented shape of a workflow: an object, whose jobs (when it has any) are an
  object of job objects; the steps of a job, when they are a sequence, are objects whose
  name is a string or is missing; the matrix of a job's strategy is an object of axes or
  is missing.
\<close>

definition stepShaped :: "jsval \<Rightarrow> bool" where
  "stepShaped step =
     (case step of
        JObj kvs \<Rightarrow> (case propOf step ''name'' of JStr s \<Rightarrow> True | v \<Rightarrow> \<not> truthy v)
      | _ \<Rightarrow> False)"

definition jobShaped :: "jsval \<Rightarrow> bool" where
  "jobShaped job =
     (case job of
        JObj kvs \<Rightarrow>
          (case propOf job ''steps'' of JArr ss \<Rightarrow> list_all stepShaped ss | _ \<Rightarrow> True)
          \<and> (case propOf (propOf job ''strategy'') ''matrix'' of
                JObj axes \<Rightarrow> True
              | v \<Rightarrow> \<not> truthy v)
      | _ \<Rightarrow> False)"

definition wellShaped :: "jsval \<Rightarrow> bool" where
  "wellShaped workflow =
     (case workflow of
        JObj kvs \<Rightarrow>
          (case propOf workflow ''jobs'' of
             JObj js \<Rightarrow> list_all jobShaped (map snd js)
           | v \<Rightarrow> \<not> truthy v)
      | _ \<Rightarrow> False)"

text \<open>
  A bound on every number the estimate passes through: per job, the largest total its
  steps can reach times the product of the axis lengths, an empty axis counted as 1.
  Below \<open>2 ^ 53\<close> a double holds every whole number.
\<close>

definition jobWorkload :: "jsval \<Rightarrow> nat" where
  "jobWorkload job =
     (5 + 10 * length (stepsOf job))
       * prod_list (map (\<lambda>axis. case axis of JArr xs \<Rightarrow> max 1 (length xs) | _ \<Rightarrow> 1)
                      (axesOf job))"

definition workload :: "jsval \<Rightarrow> nat" where
  "workload workflow = sum_list (map jobWorkload (jobsOf workflow))"

text \<open>The workflow of the test suite with a matrix of three by two (test 5).\<close>

definition matrixWorkflow :: jsval where
  "matrixWorkflow =
     JObj [(''jobs'', JObj [(''test'', JObj [
        (''strategy'', JObj [(''matrix'', JObj [
            (''node'', JArr [JStr ''14'', JStr ''16'', JStr ''18'']),
            (''os'', JArr [JStr ''ubuntu'', JStr ''windows''])])]),
        (''steps'', JArr [JObj [(''name'', JStr ''Checkout'')],
                          JObj [(''name'', JStr ''Test'')]])])])]"

lemma ilog2_bounds:
  assumes "0 < x"
  shows "2 powi (ilog2 x) \<le> x" and "x < 2 powi (ilog2 x + 1)"
proof -
  obtain p q where pq: "quotient_of x = (p, q)" by (cases "quotient_of x")
  then have q: "0 < q" and x: "x = of_int p / of_int q"
    using quotient_of_denom_pos quotient_of_div by auto
  with assms have p: "0 < p" by (simp add: zero_less_divide_iff)
  define bp where "bp = floorlog 2 (nat p)"
  define bq where "bq = floorlog 2 (nat q)"
  have bp: "2 ^ (bp - 1) \<le> nat p" "nat p < 2 ^ bp"
    using floorlog_bounds[of "nat p" 2] p by (simp_all add: bp_def)
  have bq: "2 ^ (bq - 1) \<le> nat q" "nat q < 2 ^ bq"
    using floorlog_bounds[of "nat q" 2] q by (simp_all add: bq_def)
  have bp0: "0 < bp" and bq0: "0 < bq"
    using p q by (simp_all add: bp_def bq_def floorlog_def)
  have P1: "(2::rat) ^ (bp - 1) \<le> of_int p"
  proof -
    have "(of_nat (2 ^ (bp - 1)) :: rat) \<le> of_nat (nat p)" using bp(1) of_nat_le_iff by blast
    then show ?thesis using p by simp
  qed
  have P2: "(of_int p :: rat) < 2 ^ bp"
  proof -
    have "(of_nat (nat p) :: rat) < of_nat (2 ^ bp)" using bp(2) of_nat_less_iff by blast
    then show ?thesis using p by simp
  qed
  have Q1: "(2::rat) ^ (bq - 1) \<le> of_int q"
  proof -
    have "(of_nat (2 ^ (bq - 1)) :: rat) \<le> of_nat (nat q)" using bq(1) of_nat_le_iff by blast
    then show ?thesis using q by simp
  qed
  have Q2: "(of_int q :: rat) < 2 ^ bq"
  proof -
    have "(of_nat (nat q) :: rat) < of_nat (2 ^ bq)" using bq(2) of_nat_less_iff by blast
    then show ?thesis using q by simp
  qed
  define d where "d = int bp - int bq"
  have qpos: "(0::rat) < of_int q" using q by simp
  have up: "x < 2 powi (d + 1)"
  proof -
    have "of_int p * (2::rat) ^ (bq - 1) \<le> of_int p * of_int q"
      using Q1 p by (simp add: mult_left_mono)
    also have "\<dots> < 2 ^ bp * of_int q"
      using P2 qpos by (simp add: mult_strict_right_mono)
    finally have "of_int p * (2::rat) ^ (bq - 1) < 2 ^ bp * of_int q" .
    then have "x * 2 ^ (bq - 1) < 2 ^ bp"
      using qpos by (simp add: x field_simps)
    then have "x < 2 ^ bp / 2 ^ (bq - 1)"
      by (simp add: field_simps)
    also have "\<dots> = 2 powi (int bp - int (bq - 1))"
      by (simp add: power_int_diff)
    also have "int bp - int (bq - 1) = d + 1" using bq0 by (simp add: d_def)
    finally show ?thesis .
  qed
  have lo: "2 powi (d - 1) \<le> x"
  proof -
    have "(2::rat) ^ (bp - 1) * of_int q \<le> of_int p * of_int q"
      using P1 qpos by (simp add: mult_right_mono)
    also have "\<dots> \<le> of_int p * 2 ^ bq"
      using Q2 p by (simp add: mult_left_mono)
    finally have "(2::rat) ^ (bp - 1) * of_int q \<le> of_int p * 2 ^ bq" .
    then have "2 ^ (bp - 1) \<le> x * 2 ^ bq"
      using qpos by (simp add: x field_simps)
    then have "2 ^ (bp - 1) / 2 ^ bq \<le> x"
      by (simp add: field_simps)
    moreover have "(2::rat) ^ (bp - 1) / 2 ^ bq = 2 powi (int (bp - 1) - int bq)"
      by (simp add: power_int_diff)
    moreover have "int (bp - 1) - int bq = d - 1" using bp0 by (simp add: d_def)
    ultimately show ?thesis by simp
  qed
  have il: "ilog2 x = (if 2 powi d \<le> x then d else d - 1)"
    by (simp add: ilog2_def pq d_def bp_def bq_def Let_def)
  show "2 powi (ilog2 x) \<le> x" using lo by (simp add: il)
  show "x < 2 powi (ilog2 x + 1)" using up by (auto simp add: il not_le)
qed

lemma ilog2_unique:
  assumes "2 powi e \<le> x" "x < 2 powi (e + 1)"
  shows "ilog2 x = e"
proof -
  have "(0::rat) < 2 powi e" by simp
  then have x: "0 < x" using assms(1) by linarith
  note b = ilog2_bounds[OF x]
  have 1: "e < ilog2 x + 1"
  proof (rule ccontr)
    assume "\<not> e < ilog2 x + 1"
    then have "(2::rat) powi (ilog2 x + 1) \<le> 2 powi e"
      by (intro power_int_increasing) auto
    with assms(1) b(2) show False by linarith
  qed
  have 2: "ilog2 x < e + 1"
  proof (rule ccontr)
    assume "\<not> ilog2 x < e + 1"
    then have "(2::rat) powi (e + 1) \<le> 2 powi (ilog2 x)"
      by (intro power_int_increasing) auto
    with assms(2) b(1) show False by linarith
  qed
  from 1 2 show ?thesis by simp
qed

lemma round_even_of_int: "round_even (of_int n) = n"
  by (simp add: round_even_def)

lemma round_even_ge: "of_int n \<le> x \<Longrightarrow> n \<le> round_even x"
proof -
  assume "of_int n \<le> x"
  then have "n \<le> \<lfloor>x\<rfloor>" by (simp add: le_floor_iff)
  then show ?thesis by (simp add: round_even_def Let_def)
qed

lemma fl_pos:
  assumes "0 < x"
  shows "fl x = (let e = max (ilog2 x) (- 1022); q = 2 powi (e - 52);
                     y = of_int (round_even (x / q)) * q
                 in if 2 powi 1024 \<le> y then PInf else Fin y)"
  using assms by (simp add: fl_def Let_def)

lemma fl_neg:
  assumes "x < 0"
  shows "fl x = (case fl (- x) of Fin y \<Rightarrow> Fin (- y) | PInf \<Rightarrow> NInf | v \<Rightarrow> v)"
  using assms by (simp add: fl_def Let_def)

lemma fl_nonneg:
  assumes "0 \<le> x"
  shows "fl x = PInf \<or> (\<exists>y. fl x = Fin y \<and> 0 \<le> y)"
proof (cases "x = 0")
  case True
  then show ?thesis by (simp add: fl_def)
next
  case False
  with assms have x: "0 < x" by simp
  define q where "q = (2::rat) powi (max (ilog2 x) (- 1022) - 52)"
  have q: "0 < q" by (simp add: q_def)
  have "(of_int 0 :: rat) \<le> x / q" using x q by simp
  then have "0 \<le> round_even (x / q)" by (rule round_even_ge)
  then have "0 \<le> (of_int (round_even (x / q)) :: rat) * q" using q by simp
  then show ?thesis unfolding fl_pos[OF x] Let_def q_def by simp
qed

lemma fl_ge_one:
  assumes "1 \<le> x"
  shows "fl x = PInf \<or> (\<exists>y. fl x = Fin y \<and> 1 \<le> y)"
proof -
  from assms have x: "0 < x" by simp
  note b = ilog2_bounds[OF x]
  have e0: "0 \<le> ilog2 x"
  proof (rule ccontr)
    assume "\<not> 0 \<le> ilog2 x"
    then have "(2::rat) powi (ilog2 x + 1) \<le> 2 powi 0"
      by (intro power_int_increasing) auto
    with b(2) assms show False by simp
  qed
  then have e: "max (ilog2 x) (- 1022) = ilog2 x" by simp
  define q where "q = (2::rat) powi (ilog2 x - 52)"
  have q: "0 < q" by (simp add: q_def)
  have pq: "(2::rat) powi (ilog2 x) = 2 ^ 52 * q"
    unfolding q_def by (simp add: power_int_diff)
  have "(2::rat) ^ 52 \<le> x / q" using b(1) q by (simp add: pq field_simps)
  then have "(of_int (2 ^ 52) :: rat) \<le> x / q" by simp
  then have "2 ^ 52 \<le> round_even (x / q)" by (rule round_even_ge)
  then have "(of_int (2 ^ 52) :: rat) \<le> of_int (round_even (x / q))"
    using of_int_le_iff by blast
  then have "2 ^ 52 * q \<le> (of_int (round_even (x / q)) :: rat) * q"
    using q by simp
  moreover have "1 \<le> (2::rat) powi (ilog2 x)" using e0 by simp
  ultimately have "1 \<le> (of_int (round_even (x / q)) :: rat) * q" using pq by linarith
  then show ?thesis unfolding fl_pos[OF x] Let_def e q_def by simp
qed

lemma fl_exact:
  assumes "2 powi e \<le> x" "x < 2 powi (e + 1)" "- 1022 \<le> e" "e < 1024"
    and "x = of_int k * 2 powi (e - 52)"
  shows "fl x = Fin x"
proof -
  have "(0::rat) < 2 powi e" by simp
  then have x: "0 < x" using assms(1) by linarith
  have il: "ilog2 x = e" using assms(1,2) by (rule ilog2_unique)
  have e: "max (ilog2 x) (- 1022) = e" using il assms(3) by simp
  define q where "q = (2::rat) powi (e - 52)"
  have q: "0 < q" by (simp add: q_def)
  have "x / q = of_int k" using assms(5) q by (simp add: q_def)
  then have y: "of_int (round_even (x / q)) * q = x"
    using assms(5) by (simp add: round_even_of_int q_def)
  have "(2::rat) powi (e + 1) \<le> 2 powi 1024"
    using assms(4) by (intro power_int_increasing) auto
  then have "\<not> 2 powi 1024 \<le> x" using assms(2) by linarith
  then show ?thesis unfolding fl_pos[OF x] Let_def e using y by (simp add: q_def)
qed

lemma fl_round:
  assumes "2 powi e \<le> x" "x < 2 powi (e + 1)" "- 1022 \<le> e"
    and "of_int (round_even (x / 2 powi (e - 52))) * 2 powi (e - 52) = y"
    and "y < 2 powi 1024"
  shows "fl x = Fin y"
proof -
  have "(0::rat) < 2 powi e" by simp
  then have x: "0 < x" using assms(1) by linarith
  have il: "ilog2 x = e" using assms(1,2) by (rule ilog2_unique)
  have e: "max (ilog2 x) (- 1022) = e" using il assms(3) by simp
  show ?thesis unfolding fl_pos[OF x] Let_def e using assms(4,5) by simp
qed

lemma fl_of_nat_pos:
  assumes "0 < n" "n \<le> 2 ^ 53"
  shows "fl (of_nat n) = Fin (of_nat n)"
proof -
  define x :: rat where "x = of_nat n"
  have x: "0 < x" using assms(1) by (simp add: x_def)
  note b = ilog2_bounds[OF x]
  define e where "e = ilog2 x"
  have x1: "1 \<le> x" using assms(1) by (simp add: x_def)
  have e0: "0 \<le> e"
  proof (rule ccontr)
    assume "\<not> 0 \<le> e"
    then have "(2::rat) powi (e + 1) \<le> 2 powi 0"
      by (intro power_int_increasing) auto
    with b(2) x1 show False by (simp add: e_def)
  qed
  have x53: "x \<le> 2 ^ 53"
  proof -
    have "(of_nat n :: rat) \<le> of_nat (2 ^ 53)" using assms(2) of_nat_le_iff by blast
    then show ?thesis by (simp add: x_def)
  qed
  have e53: "e \<le> 53"
  proof (rule ccontr)
    assume "\<not> e \<le> 53"
    then have "(2::rat) powi 54 \<le> 2 powi e"
      by (intro power_int_increasing) auto
    with b(1) x53 show False by (simp add: e_def)
  qed
  show ?thesis
  proof (cases "e \<le> 52")
    case True
    have "(2::rat) powi (e - 52) * 2 powi (52 - e) = 2 powi 0"
      by (subst power_int_add[symmetric]) auto
    then have inv: "(2::rat) powi (e - 52) * 2 ^ nat (52 - e) = 1"
      using True by (simp add: power_int_nonneg_exp)
    have "x = of_int (int n * 2 ^ nat (52 - e)) * 2 powi (e - 52)"
      using inv by (simp add: x_def mult.assoc mult.commute)
    then have "fl x = Fin x"
      using b e0 e53 by (intro fl_exact[where e = e and k = "int n * 2 ^ nat (52 - e)"]) (auto simp: e_def)
    then show ?thesis by (simp add: x_def)
  next
    case False
    with e53 have e: "e = 53" by simp
    have "x = 2 ^ 53" using b(1) x53 by (simp add: e_def[symmetric] e)
    then have "x = of_int (2 ^ 52) * 2 powi (e - 52)" by (simp add: e)
    then have "fl x = Fin x"
      using b by (intro fl_exact[where e = e and k = "2 ^ 52"]) (auto simp: e_def[symmetric] e)
    then show ?thesis by (simp add: x_def)
  qed
qed

lemma fl_of_nat: "n \<le> 2 ^ 53 \<Longrightarrow> fl (of_nat n) = Fin (of_nat n)"
  by (cases "n = 0") (simp_all add: fl_of_nat_pos, simp add: fl_def)

lemma fl_numeral [simp]:
  "numeral k \<le> (9007199254740992::nat) \<Longrightarrow> fl (numeral k) = Fin (numeral k)"
  using fl_of_nat[of "numeral k"] by simp

lemma fl_zero [simp]: "fl 0 = Fin 0" by (simp add: fl_def)
lemma fl_one [simp]: "fl 1 = Fin 1" using fl_of_nat[of 1] by simp


lemma round_even_eqI:
  assumes "of_int k - 1 / 2 < x" "x < of_int k + 1 / 2"
  shows "round_even x = k"
proof -
  have "\<lfloor>x\<rfloor> = k \<or> \<lfloor>x\<rfloor> = k - 1"
  proof -
    have "of_int (k - 1) \<le> x" using assms(1) by simp
    then have 1: "k - 1 \<le> \<lfloor>x\<rfloor>" by (simp only: le_floor_iff)
    have "x < of_int (k + 1)" using assms(2) by simp
    then have 2: "\<lfloor>x\<rfloor> < k + 1" by (simp only: floor_less_iff)
    from 1 2 show ?thesis by linarith
  qed
  then show ?thesis
  proof
    assume f: "\<lfloor>x\<rfloor> = k"
    then show ?thesis using assms(2) by (simp add: round_even_def Let_def)
  next
    assume f: "\<lfloor>x\<rfloor> = k - 1"
    then show ?thesis using assms(1) by (simp add: round_even_def Let_def)
  qed
qed

text \<open>
  Rounding a rational near a given double: the exponent \<open>e\<close> and the significand
  \<open>m\<close> are supplied, and the side conditions are comparisons of numerals.
\<close>

lemma fl_near:
  assumes "2 powi e \<le> x" "x < 2 powi (e + 1)" "- 1022 \<le> e"
    and "of_int m - 1 / 2 < x / 2 powi (e - 52)" "x / 2 powi (e - 52) < of_int m + 1 / 2"
    and "y = of_int m * 2 powi (e - 52)"
    and "y < 2 powi 1024"
  shows "fl x = Fin y"
  using assms(1-3) _ assms(7)
  by (rule fl_round) (simp add: round_even_eqI[OF assms(4,5)] assms(6))

lemma fl_neg_numeral [simp]:
  "numeral k \<le> (9007199254740992::nat) \<Longrightarrow> fl (- numeral k) = Fin (- numeral k)"
  using fl_numeral[of k] by (simp add: fl_neg)

declare countCronFieldSlots.simps [simp del]
declare showNat.simps [simp del]

lemmas str_defs = splitWs_def isWhite_def trim_def toLowerCase_def lowerChar_def caseTable_def
lemmas num_defs = nmax_def nmin_def nle_def nge_def ngt_def nsub_def num_eq_def isFinite_def
  signedInf_def
lemmas Number_defs = Number_def nonDecimalLiteral_def unsignedLiteral_def unsignedDecimal_def
  isDigit_def digitValue_def exponentPart_def digitsValue_def allDigits_def

subsection \<open>Loops and property reads\<close>

lemma reduceM_append:
  "reduceM f a (xs @ ys) = (case reduceM f a xs of None \<Rightarrow> None | Some b \<Rightarrow> reduceM f b ys)"
  by (induction xs arbitrary: a) (auto split: option.splits)

lemma reduceM_total:
  assumes "\<And>a x. \<exists>b. f a x = Some b"
  shows "\<exists>b. reduceM f a xs = Some b"
proof (induction xs arbitrary: a)
  case Nil
  then show ?case by simp
next
  case (Cons x xs)
  from assms obtain b where "f a x = Some b" by blast
  then show ?case using Cons[of b] by simp
qed

lemma getProp_truthy: "truthy v \<Longrightarrow> \<exists>x. getProp v k = Some x"
  by (cases v) auto

subsection \<open>Splitting a cron string\<close>

lemma splitWsFrom_not_Nil: "splitWsFrom g s \<noteq> []"
  by (induction s arbitrary: g) (auto split: list.splits)

lemma splitWsFrom_wsFree_append:
  assumes "\<forall>c \<in> set f. \<not> isWhite c"
  shows "splitWsFrom False (f @ r) =
           (case splitWsFrom False r of [] \<Rightarrow> [f] | p # ps \<Rightarrow> (f @ p) # ps)"
  using assms
proof (induction f)
  case Nil
  then show ?case using splitWsFrom_not_Nil[of False r] by (simp split: list.splits)
next
  case (Cons c f)
  then show ?case by (auto split: list.splits)
qed

lemma splitWsFrom_True_wsFree:
  assumes "wsFree f"
  shows "splitWsFrom True (f @ r) = splitWsFrom False (f @ r)"
  using assms by (cases f) (auto simp: wsFree_def)

lemma splitWs_field_space:
  assumes "wsFree f" "wsFree g"
  shows "splitWsFrom False (f @ CHR '' '' # g @ r) = f # splitWsFrom False (g @ r)"
proof -
  have sp: "isWhite CHR '' ''" by (simp add: isWhite_def)
  have "splitWsFrom False (CHR '' '' # g @ r) = [] # splitWsFrom True (g @ r)"
    using sp by simp
  also have "\<dots> = [] # splitWsFrom False (g @ r)"
    using splitWsFrom_True_wsFree[OF assms(2)] by simp
  finally show ?thesis
    using splitWsFrom_wsFree_append[of f "CHR '' '' # g @ r"] assms(1) by (simp add: wsFree_def)
qed

lemma splitWs_last_field:
  assumes "wsFree f"
  shows "splitWsFrom False f = [f]"
  using splitWsFrom_wsFree_append[of f "[]"] assms by (simp add: wsFree_def)

lemma splitWs_cronString:
  assumes "wsFree m" "wsFree h" "wsFree dm" "wsFree mon" "wsFree dow"
  shows "splitWs (cronString m h dm mon dow) = [m, h, dm, mon, dow]"
proof -
  have 4: "splitWsFrom False (mon @ CHR '' '' # dow) = [mon, dow]"
    using splitWs_field_space[OF assms(4,5), of "[]"] splitWs_last_field[OF assms(5)] by simp
  have 3: "splitWsFrom False (dm @ CHR '' '' # mon @ CHR '' '' # dow) = [dm, mon, dow]"
    using splitWs_field_space[OF assms(3,4), of "CHR '' '' # dow"] 4 by simp
  have 2: "splitWsFrom False (h @ CHR '' '' # dm @ CHR '' '' # mon @ CHR '' '' # dow) = [h, dm, mon, dow]"
    using splitWs_field_space[OF assms(2,3), of "CHR '' '' # mon @ CHR '' '' # dow"] 3 by simp
  show ?thesis
    unfolding splitWs_def cronString_def
    using splitWs_field_space[OF assms(1,2), of "CHR '' '' # dm @ CHR '' '' # mon @ CHR '' '' # dow"] 2
    by simp
qed

lemma dropWhile_wsFree: "wsFree f \<Longrightarrow> dropWhile isWhite (f @ r) = f @ r"
  by (cases f) (auto simp: wsFree_def)

lemma trim_cronString:
  assumes "wsFree m" "wsFree dow"
  shows "trim (cronString m h dm mon dow) = cronString m h dm mon dow"
proof -
  let ?s = "cronString m h dm mon dow"
  have 1: "dropWhile isWhite ?s = ?s"
    unfolding cronString_def using dropWhile_wsFree[OF assms(1)] by simp
  have w: "wsFree (rev dow)" using assms(2) by (simp add: wsFree_def)
  have "rev ?s = rev dow @ rev (m @ CHR '' '' # h @ CHR '' '' # dm @ CHR '' '' # mon @ [CHR '' ''])"
    by (simp add: cronString_def)
  then have 2: "dropWhile isWhite (rev ?s) = rev ?s"
    using dropWhile_wsFree[OF w] by simp
  show ?thesis unfolding trim_def 1 2 by simp
qed

lemma scheduleReducer_total: "\<exists>n. scheduleReducer t e = Some n"
proof (cases "truthy e")
  case True
  then obtain c where "getProp e ''cron'' = Some c" using getProp_truthy by blast
  then show ?thesis using True
    by (simp add: scheduleReducer_def Let_def split: list.splits)
next
  case False
  then show ?thesis by (simp add: scheduleReducer_def Let_def split: list.splits)
qed

lemma estimateScheduleRunsPerMonth_total: "\<exists>n. estimateScheduleRunsPerMonth cfg = Some n"
  unfolding estimateScheduleRunsPerMonth_def Let_def
  using reduceM_total[of scheduleReducer, OF scheduleReducer_total] by simp

lemma estimateScheduleRunsPerMonth_array:
  "estimateScheduleRunsPerMonth (JArr es) = reduceM scheduleReducer (Fin 0) es"
  by (cases es) (simp_all add: estimateScheduleRunsPerMonth_def)

lemma scheduleReducer_wellformed:
  assumes "splitWs (trim s) = [m, h, dm, mon, dow]"
  shows "scheduleReducer t (cronEntry s) =
     Some (nadd t (nmax (Fin 1) (nceil (nmul (baselineCadence dm mon dow)
        (nmax (Fin 1) (nmul (countCronFieldSlots m (Fin 60)) (countCronFieldSlots h (Fin 24))))))))"
  using assms
  by (simp add: scheduleReducer_def cronEntry_def baselineCadence_def DAYS_PER_MONTH_def Let_def)

lemma scheduleReducer_malformed:
  assumes "malformedEntry e"
  shows "scheduleReducer t e = Some (nadd t (Fin 4))"
proof (cases "truthy e")
  case True
  then obtain c where c: "getProp e ''cron'' = Some c" using getProp_truthy by blast
  show ?thesis
  proof (cases c)
    case (JStr s)
    then have "length (splitWs (trim s)) \<noteq> 5" using assms True c by (simp add: malformedEntry_def)
    then show ?thesis using True c JStr
      by (auto simp add: scheduleReducer_def Let_def split: list.splits)
  qed (use True c in \<open>simp_all add: scheduleReducer_def splitWs_def\<close>)
next
  case False
  then show ?thesis by (simp add: scheduleReducer_def splitWs_def)
qed

lemma splitOn_no_sep: "sep \<notin> set s \<Longrightarrow> splitOn sep s = [s]"
  by (induction s) auto

lemma countCronFieldSlots_bad_step:
  assumes "CHR '','' \<notin> set field"
    and "splitOn CHR ''/'' field = base # stepRaw # rest"
    and "\<not> (isFinite (Number stepRaw) \<and> ngt (Number stepRaw) (Fin 0))"
  shows "countCronFieldSlots field maxSlots = Fin 1"
proof -
  have slash: "CHR ''/'' \<in> set field"
    using assms(2) splitOn_no_sep[of "CHR ''/''" field] by auto
  then have ne: "field \<noteq> []" "field \<noteq> ''*''" by auto
  have nocomma: "\<not> str_includes field '',''" using assms(1) by (simp add: str_includes_single)
  have hasslash: "str_includes field ''/''" using slash by (simp add: str_includes_single)
  have bad: "\<not> isFinite (Number stepRaw) \<or> nle (Number stepRaw) (Fin 0)"
    using assms(3) by (cases "Number stepRaw") (auto simp: isFinite_def ngt_def nle_def)
  have "slashSlots field maxSlots = Some (Fin 1)"
    using assms(2) bad by (auto simp add: slashSlots_def Let_def)
  then show ?thesis
    using ne nocomma hasslash by (simp add: countCronFieldSlots.simps[of field maxSlots])
qed

text \<open>
  C4.  One cron entry with all five fields \<open>*\<close> gives 30 runs a month, the weekly cron
  \<open>0 2 * * 0\<close> gives 4 and the monthly cron \<open>0 0 1 * *\<close> gives 1.  In general an entry
  of five fields adds the baseline cadence (30 when day-of-month, month and day-of-week
  are all \<open>*\<close>, 4 when day-of-week is restricted, else 1) times the number of
  minute-and-hour slots, that count and the product being at least 1.
\<close>

theorem estimateScheduleRunsPerMonth_cadence:
  "estimateScheduleRunsPerMonth (JArr [cronEntry ''* * * * *'']) = Some (Fin 30)
   \<and> estimateScheduleRunsPerMonth (JArr [cronEntry ''0 2 * * 0'']) = Some (Fin 4)
   \<and> estimateScheduleRunsPerMonth (JArr [cronEntry ''0 0 1 * *'']) = Some (Fin 1)
   \<and> (\<forall>m h dm mon dow.
         wsFree m \<and> wsFree h \<and> wsFree dm \<and> wsFree mon \<and> wsFree dow \<longrightarrow>
         estimateScheduleRunsPerMonth (JArr [cronEntry (cronString m h dm mon dow)]) =
           Some (nadd (Fin 0) (nmax (Fin 1) (nceil (nmul (baselineCadence dm mon dow)
             (nmax (Fin 1) (nmul (countCronFieldSlots m (Fin 60))
                                 (countCronFieldSlots h (Fin 24)))))))))"
proof (intro conjI allI impI)
  show "estimateScheduleRunsPerMonth (JArr [cronEntry ''* * * * *'']) = Some (Fin 30)"
    by (simp add: estimateScheduleRunsPerMonth_def scheduleReducer_def cronEntry_def str_defs
        num_defs countCronFieldSlots.simps DAYS_PER_MONTH_def Let_def)
  show "estimateScheduleRunsPerMonth (JArr [cronEntry ''0 2 * * 0'']) = Some (Fin 4)"
    by (simp add: estimateScheduleRunsPerMonth_def scheduleReducer_def cronEntry_def str_defs
        num_defs countCronFieldSlots.simps DAYS_PER_MONTH_def Let_def)
  show "estimateScheduleRunsPerMonth (JArr [cronEntry ''0 0 1 * *'']) = Some (Fin 1)"
    by (simp add: estimateScheduleRunsPerMonth_def scheduleReducer_def cronEntry_def str_defs
        num_defs countCronFieldSlots.simps DAYS_PER_MONTH_def Let_def)
next
  fix m h dm mon dow
  assume a: "wsFree m \<and> wsFree h \<and> wsFree dm \<and> wsFree mon \<and> wsFree dow"
  then have "splitWs (trim (cronString m h dm mon dow)) = [m, h, dm, mon, dow]"
    by (simp add: trim_cronString splitWs_cronString)
  then show "estimateScheduleRunsPerMonth (JArr [cronEntry (cronString m h dm mon dow)]) =
           Some (nadd (Fin 0) (nmax (Fin 1) (nceil (nmul (baselineCadence dm mon dow)
             (nmax (Fin 1) (nmul (countCronFieldSlots m (Fin 60))
                                 (countCronFieldSlots h (Fin 24))))))))"
    by (simp add: estimateScheduleRunsPerMonth_array scheduleReducer_wellformed)
qed

lemma fl_quarter_hour: "fl (60 / 15) = Fin 4"
  by simp

theorem estimateScheduleRunsPerMonth_cadence_witness:
  "(wsFree ''*/15'' \<and> wsFree ''0'' \<and> wsFree ''*'' \<and> wsFree ''*'' \<and> wsFree ''1-5'')
   \<and> estimateScheduleRunsPerMonth (JArr [cronEntry ''*/15 0 * * 1-5'']) = Some (Fin 16)"
proof -
  have w: "wsFree ''*/15'' \<and> wsFree ''0'' \<and> wsFree ''*'' \<and> wsFree ''*'' \<and> wsFree ''1-5''"
    by (simp add: wsFree_def isWhite_def)
  have m: "countCronFieldSlots ''*/15'' (Fin 60) = Fin 4"
    by (simp add: countCronFieldSlots.simps slashSlots_def Number_defs str_defs num_defs Let_def)
  have h: "countCronFieldSlots ''0'' (Fin 24) = Fin 1"
    by (simp add: countCronFieldSlots.simps)
  have c: "cronString ''*/15'' ''0'' ''*'' ''*'' ''1-5'' = ''*/15 0 * * 1-5''"
    by (simp add: cronString_def)
  from estimateScheduleRunsPerMonth_cadence
  have "estimateScheduleRunsPerMonth (JArr [cronEntry (cronString ''*/15'' ''0'' ''*'' ''*'' ''1-5'')]) =
           Some (nadd (Fin 0) (nmax (Fin 1) (nceil (nmul (baselineCadence ''*'' ''*'' ''1-5'')
             (nmax (Fin 1) (nmul (countCronFieldSlots ''*/15'' (Fin 60))
                                 (countCronFieldSlots ''0'' (Fin 24))))))))"
    using w by blast
  then show ?thesis using w by (simp add: m h c baselineCadence_def num_defs)
qed

text \<open>
  C5.  Cron estimation never throws: \<open>estimateScheduleRunsPerMonth\<close> returns a number
  for every schedule configuration.  An entry whose cron string does not split into
  exactly five fields adds the fixed 4 to the total of the entries before it.  A field
  without a comma, of the form base/step with a step that is not a finite positive
  number, counts one slot.
\<close>

theorem cron_estimation_never_fails:
  "(\<forall>cfg. \<exists>n. estimateScheduleRunsPerMonth cfg = Some n)
   \<and> (\<forall>es e. malformedEntry e \<longrightarrow>
         estimateScheduleRunsPerMonth (JArr (es @ [e])) =
           map_option (\<lambda>t. nadd t (Fin 4)) (estimateScheduleRunsPerMonth (JArr es)))
   \<and> (\<forall>field maxSlots base stepRaw rest.
         CHR '','' \<notin> set field \<longrightarrow> splitOn CHR ''/'' field = base # stepRaw # rest \<longrightarrow>
         \<not> (isFinite (Number stepRaw) \<and> ngt (Number stepRaw) (Fin 0)) \<longrightarrow>
         countCronFieldSlots field maxSlots = Fin 1)"
proof (intro conjI allI impI)
  fix cfg show "\<exists>n. estimateScheduleRunsPerMonth cfg = Some n"
    by (rule estimateScheduleRunsPerMonth_total)
next
  fix es e assume "malformedEntry e"
  then show "estimateScheduleRunsPerMonth (JArr (es @ [e])) =
           map_option (\<lambda>t. nadd t (Fin 4)) (estimateScheduleRunsPerMonth (JArr es))"
    by (simp add: estimateScheduleRunsPerMonth_array reduceM_append scheduleReducer_malformed
        split: option.splits)
next
  fix field maxSlots base stepRaw rest
  assume "CHR '','' \<notin> set field" "splitOn CHR ''/'' field = base # stepRaw # rest"
    "\<not> (isFinite (Number stepRaw) \<and> ngt (Number stepRaw) (Fin 0))"
  then show "countCronFieldSlots field maxSlots = Fin 1"
    by (rule countCronFieldSlots_bad_step)
qed

theorem cron_estimation_never_fails_witness:
  "malformedEntry (cronEntry ''0 2 * *'')
   \<and> estimateScheduleRunsPerMonth (JArr ([cronEntry ''0 2 * * 0''] @ [cronEntry ''0 2 * *''])) = Some (Fin 8)
   \<and> CHR '','' \<notin> set ''*/0'' \<and> splitOn CHR ''/'' ''*/0'' = ''*'' # ''0'' # []
   \<and> \<not> (isFinite (Number ''0'') \<and> ngt (Number ''0'') (Fin 0))
   \<and> countCronFieldSlots ''*/0'' (Fin 60) = Fin 1
   \<and> splitOn CHR ''/'' ''1-5/x'' = ''1-5'' # ''x'' # []
   \<and> \<not> (isFinite (Number ''x'') \<and> ngt (Number ''x'') (Fin 0))
   \<and> countCronFieldSlots ''1-5/x'' (Fin 60) = Fin 1"
proof -
  have mal: "malformedEntry (cronEntry ''0 2 * *'')"
    by (simp add: malformedEntry_def cronEntry_def str_defs)
  have weekly: "estimateScheduleRunsPerMonth (JArr [cronEntry ''0 2 * * 0'']) = Some (Fin 4)"
    by (simp add: estimateScheduleRunsPerMonth_def scheduleReducer_def cronEntry_def str_defs
        num_defs countCronFieldSlots.simps DAYS_PER_MONTH_def Let_def)
  have n0: "Number ''0'' = Fin 0" by (simp add: Number_defs str_defs Let_def)
  have nx: "Number ''x'' = NaN" by (simp add: Number_defs str_defs Let_def)
  have s0: "splitOn CHR ''/'' ''*/0'' = ''*'' # ''0'' # []" by simp
  have sx: "splitOn CHR ''/'' ''1-5/x'' = ''1-5'' # ''x'' # []" by simp
  have b0: "\<not> (isFinite (Number ''0'') \<and> ngt (Number ''0'') (Fin 0))" by (simp add: n0 num_defs)
  have bx: "\<not> (isFinite (Number ''x'') \<and> ngt (Number ''x'') (Fin 0))" by (simp add: nx num_defs)
  note main = cron_estimation_never_fails
  have 1: "estimateScheduleRunsPerMonth (JArr ([cronEntry ''0 2 * * 0''] @ [cronEntry ''0 2 * *''])) =
           map_option (\<lambda>t. nadd t (Fin 4)) (estimateScheduleRunsPerMonth (JArr [cronEntry ''0 2 * * 0'']))"
    using main[THEN conjunct2, THEN conjunct1, rule_format, OF mal] .
  have 2: "countCronFieldSlots ''*/0'' (Fin 60) = Fin 1"
    using main[THEN conjunct2, THEN conjunct2, rule_format, OF _ s0 b0] by simp
  have 3: "countCronFieldSlots ''1-5/x'' (Fin 60) = Fin 1"
    using main[THEN conjunct2, THEN conjunct2, rule_format, OF _ sx bx] by simp
  show ?thesis using mal 1 2 3 s0 sx b0 bx by (simp add: weekly)
qed

subsection \<open>Numbers that are not NaN\<close>

lemma nonneg_cases:
  assumes "nonneg n"
  obtains "n = PInf" | x where "n = Fin x" "0 \<le> x"
  using assms by (cases n) (auto simp: nonneg_def)

lemma geOne_cases:
  assumes "geOne n"
  obtains "n = PInf" | x where "n = Fin x" "1 \<le> x"
  using assms by (cases n) (auto simp: geOne_def)

lemma geOne_nonneg: "geOne n \<Longrightarrow> nonneg n"
  by (cases n) (auto simp: geOne_def nonneg_def)

lemma nonneg_fl: "0 \<le> x \<Longrightarrow> nonneg (fl x)"
  using fl_nonneg[of x] by (auto simp: nonneg_def)

lemma geOne_fl: "1 \<le> x \<Longrightarrow> geOne (fl x)"
  using fl_ge_one[of x] by (auto simp: geOne_def)

lemma nonneg_Fin [simp]: "nonneg (Fin x) \<longleftrightarrow> 0 \<le> x"
  by (simp add: nonneg_def)

lemma geOne_Fin [simp]: "geOne (Fin x) \<longleftrightarrow> 1 \<le> x"
  by (simp add: geOne_def)

lemma nonneg_PInf [simp]: "nonneg PInf" by (simp add: nonneg_def)
lemma geOne_PInf [simp]: "geOne PInf" by (simp add: geOne_def)

lemma nonneg_nadd: "nonneg a \<Longrightarrow> nonneg b \<Longrightarrow> nonneg (nadd a b)"
  by (erule nonneg_cases; erule nonneg_cases) (simp_all add: nonneg_fl)

lemma geOne_nadd: "nonneg a \<Longrightarrow> geOne b \<Longrightarrow> geOne (nadd a b)"
  by (erule nonneg_cases; erule geOne_cases) (simp_all add: geOne_fl)

lemma nonneg_nceil: "nonneg a \<Longrightarrow> nonneg (nceil a)"
  by (erule nonneg_cases) (simp_all add: ceiling_le_iff le_ceiling_iff)

lemma geOne_nmax: "n \<noteq> NaN \<Longrightarrow> geOne (nmax (Fin 1) n)"
  by (cases n) (auto simp: nmax_def geOne_def)

lemma geOne_nle: "geOne n \<Longrightarrow> nle (Fin 1) n"
  by (cases n) (auto simp: geOne_def nle_def)

lemma nonneg_not_NaN: "nonneg n \<Longrightarrow> n \<noteq> NaN"
  by (auto simp: nonneg_def)

lemma nonneg_nmul_pos: "nonneg a \<Longrightarrow> 0 < x \<Longrightarrow> nonneg (nmul a (Fin x))"
  by (erule nonneg_cases) (simp_all add: nonneg_fl signedInf_def)

lemma nonneg_nmul_pos_left: "0 < x \<Longrightarrow> geOne b \<Longrightarrow> nonneg (nmul (Fin x) b)"
  by (erule geOne_cases) (simp_all add: nonneg_fl signedInf_def)

lemma nonneg_nmul_geOne: "geOne a \<Longrightarrow> geOne b \<Longrightarrow> nonneg (nmul a b)"
  by (erule geOne_cases; erule geOne_cases) (simp_all add: nonneg_fl signedInf_def)

lemma nonneg_ndiv_pos: "nonneg a \<Longrightarrow> 0 < x \<Longrightarrow> nonneg (ndiv a (Fin x))"
  by (erule nonneg_cases) (simp_all add: nonneg_fl signedInf_def)

lemma ndiv_Fin_pos_not_NaN: "0 < x \<Longrightarrow> ndiv (Fin a) (Fin x) \<noteq> NaN"
proof -
  assume x: "0 < x"
  have "fl (a / x) \<noteq> NaN" by (auto simp: fl_def Let_def)
  then show ?thesis using x by simp
qed

lemma nceil_not_NaN: "n \<noteq> NaN \<Longrightarrow> nceil n \<noteq> NaN"
  by (cases n) auto

lemma nonneg_nsub: "nlt b a = False \<Longrightarrow> nonneg (nsub (Fin b') (Fin a'))" if "a' \<le> b'"
  using that by (simp add: nsub_def nonneg_fl)

subsection \<open>Cron slots are at least one\<close>

lemma foldl_nadd_geOne:
  assumes "\<And>p. p \<in> set ps \<Longrightarrow> geOne (f p)" "nonneg acc"
  shows "nonneg (foldl (\<lambda>sum part. nadd sum (f part)) acc ps)
         \<and> (ps \<noteq> [] \<longrightarrow> geOne (foldl (\<lambda>sum part. nadd sum (f part)) acc ps))"
  using assms
proof (induction ps arbitrary: acc)
  case Nil
  then show ?case by simp
next
  case (Cons p ps)
  have g: "geOne (nadd acc (f p))" using Cons.prems by (simp add: geOne_nadd)
  have IH: "nonneg (foldl (\<lambda>sum part. nadd sum (f part)) (nadd acc (f p)) ps)
         \<and> (ps \<noteq> [] \<longrightarrow> geOne (foldl (\<lambda>sum part. nadd sum (f part)) (nadd acc (f p)) ps))"
    using Cons.IH[of "nadd acc (f p)"] Cons.prems g by (simp add: geOne_nonneg)
  show ?case
  proof (cases ps)
    case Nil
    then show ?thesis using g by (simp add: geOne_nonneg)
  next
    case (Cons q qs)
    then show ?thesis using IH by simp
  qed
qed

lemma slashSlots_geOne:
  assumes "slashSlots field (Fin k) = Some n"
  shows "geOne n"
proof -
  have range: "\<And>s e st. isFinite s \<Longrightarrow> isFinite e \<Longrightarrow> \<not> nlt e s \<Longrightarrow> isFinite st \<Longrightarrow> \<not> nle st (Fin 0) \<Longrightarrow>
     geOne (nmax (Fin 1) (nceil (ndiv (nadd (nsub e s) (Fin 1)) st)))"
  proof -
    fix s e st
    assume a: "isFinite s" "isFinite e" "\<not> nlt e s" "isFinite st" "\<not> nle st (Fin 0)"
    then obtain s' e' st' where v: "s = Fin s'" "e = Fin e'" "st = Fin st'"
      by (cases s; cases e; cases st) (auto simp: isFinite_def)
    with a have le: "s' \<le> e'" and pos: "0 < st'" by (auto simp: nle_def)
    have "nonneg (nsub e s)" using le by (simp add: v nsub_def nonneg_fl)
    then have "nonneg (nadd (nsub e s) (Fin 1))" by (simp add: nonneg_nadd)
    then have "nonneg (ndiv (nadd (nsub e s) (Fin 1)) st)" using pos by (simp add: v nonneg_ndiv_pos)
    then have "nceil (ndiv (nadd (nsub e s) (Fin 1)) st) \<noteq> NaN"
      by (simp add: nonneg_not_NaN nceil_not_NaN)
    then show "geOne (nmax (Fin 1) (nceil (ndiv (nadd (nsub e s) (Fin 1)) st)))" by (rule geOne_nmax)
  qed
  have star: "\<And>st. isFinite st \<Longrightarrow> \<not> nle st (Fin 0) \<Longrightarrow> geOne (nmax (Fin 1) (nceil (ndiv (Fin k) st)))"
  proof -
    fix st assume a: "isFinite st" "\<not> nle st (Fin 0)"
    then obtain st' where v: "st = Fin st'" by (cases st) (auto simp: isFinite_def)
    with a have pos: "0 < st'" by (auto simp: nle_def)
    have "nceil (ndiv (Fin k) st) \<noteq> NaN"
      unfolding v using ndiv_Fin_pos_not_NaN[OF pos] by (rule nceil_not_NaN)
    then show "geOne (nmax (Fin 1) (nceil (ndiv (Fin k) st)))" by (rule geOne_nmax)
  qed
  show ?thesis
    using assms range star
    by (auto simp add: slashSlots_def Let_def split: list.splits if_splits)
qed

lemma rangeSlots_geOne: "geOne (rangeSlots field)"
proof -
  have range: "\<And>s e. isFinite s \<Longrightarrow> isFinite e \<Longrightarrow> \<not> nlt e s \<Longrightarrow>
     geOne (nmax (Fin 1) (nadd (nsub e s) (Fin 1)))"
  proof -
    fix s e
    assume a: "isFinite s" "isFinite e" "\<not> nlt e s"
    then obtain s' e' where v: "s = Fin s'" "e = Fin e'"
      by (cases s; cases e) (auto simp: isFinite_def)
    with a have le: "s' \<le> e'" by auto
    have "nonneg (nsub e s)" using le by (simp add: v nsub_def nonneg_fl)
    then have "nonneg (nadd (nsub e s) (Fin 1))" by (simp add: nonneg_nadd)
    then show "geOne (nmax (Fin 1) (nadd (nsub e s) (Fin 1)))"
      by (simp add: nonneg_not_NaN geOne_nmax)
  qed
  show ?thesis using range
    by (auto simp add: rangeSlots_def Let_def split: list.splits)
qed

lemma countCronFieldSlots_geOne: "geOne (countCronFieldSlots field (Fin k))"
proof (induction field "Fin k" rule: countCronFieldSlots.induct)
  case (1 field)
  show ?case
  proof (cases "field = [] \<or> field = ''*''")
    case True
    then show ?thesis by (auto simp add: countCronFieldSlots.simps[of field])
  next
    case nontrivial: False
    show ?thesis
    proof (cases "str_includes field '',''")
      case True
      let ?ps = "map trim (splitOn CHR '','' field)"
      have ne: "?ps \<noteq> []" using splitOn_not_Nil by simp
      have "\<And>p. p \<in> set ?ps \<Longrightarrow> geOne (countCronFieldSlots p (Fin k))"
        using "1" nontrivial True by blast
      then have "geOne (foldl (\<lambda>sum part. nadd sum (countCronFieldSlots part (Fin k))) (Fin 0) ?ps)"
        using foldl_nadd_geOne[of ?ps "\<lambda>p. countCronFieldSlots p (Fin k)" "Fin 0"] ne by simp
      then show ?thesis using nontrivial True
        by (simp add: countCronFieldSlots.simps[of field])
    next
      case False
      then show ?thesis using nontrivial slashSlots_geOne[of field k] rangeSlots_geOne[of field]
        by (auto simp add: countCronFieldSlots.simps[of field] split: option.splits)
    qed
  qed
qed

lemma scheduleReducer_nonneg:
  assumes "nonneg t" "scheduleReducer t e = Some n"
  shows "nonneg n"
proof -
  have contribution: "\<And>b m h. b \<in> {4, 1, 30} \<Longrightarrow>
     nonneg (nadd t (nmax (Fin 1) (nceil (nmul (Fin b)
       (nmax (Fin 1) (nmul (countCronFieldSlots m (Fin 60)) (countCronFieldSlots h (Fin 24))))))))"
  proof -
    fix b :: rat and m h assume b: "b \<in> {4, 1, 30}"
    then have bpos: "0 < b" by auto
    have "nonneg (nmul (countCronFieldSlots m (Fin 60)) (countCronFieldSlots h (Fin 24)))"
      by (intro nonneg_nmul_geOne countCronFieldSlots_geOne)
    then have "geOne (nmax (Fin 1) (nmul (countCronFieldSlots m (Fin 60)) (countCronFieldSlots h (Fin 24))))"
      by (intro geOne_nmax nonneg_not_NaN)
    then have "nonneg (nmul (Fin b) (nmax (Fin 1) (nmul (countCronFieldSlots m (Fin 60)) (countCronFieldSlots h (Fin 24)))))"
      using bpos by (intro nonneg_nmul_pos_left)
    then have "geOne (nmax (Fin 1) (nceil (nmul (Fin b) (nmax (Fin 1) (nmul (countCronFieldSlots m (Fin 60)) (countCronFieldSlots h (Fin 24)))))))"
      by (intro geOne_nmax nceil_not_NaN nonneg_not_NaN)
    then show "nonneg (nadd t (nmax (Fin 1) (nceil (nmul (Fin b)
       (nmax (Fin 1) (nmul (countCronFieldSlots m (Fin 60)) (countCronFieldSlots h (Fin 24))))))))"
      using assms(1) by (intro nonneg_nadd) (simp_all add: geOne_nonneg)
  qed
  have four: "nonneg (nadd t (Fin 4))" using assms(1) by (intro nonneg_nadd) simp_all
  obtain cron where c: "(if truthy e then do { c \<leftarrow> getProp e ''cron'';
                Some (case c of JStr s \<Rightarrow> trim s | _ \<Rightarrow> []) } else Some []) = Some cron"
    using getProp_truthy[of e "''cron''"] by (cases "truthy e") auto
  show ?thesis
    using assms(2) four contribution[of 4] contribution[of 1] contribution[of 30]
    unfolding scheduleReducer_def c
    by (auto simp add: Let_def DAYS_PER_MONTH_def split: list.splits if_splits)
qed

lemma reduceM_invariant:
  assumes "P a" "\<And>a x b. P a \<Longrightarrow> f a x = Some b \<Longrightarrow> P b" "reduceM f a xs = Some r"
  shows "P r"
  using assms
proof (induction xs arbitrary: a)
  case Nil
  then show ?case by simp
next
  case (Cons x xs)
  then show ?case by (auto split: option.splits)
qed

lemma estimateScheduleRunsPerMonth_nonneg:
  assumes "estimateScheduleRunsPerMonth cfg = Some n"
  shows "nonneg n"
proof -
  have "\<And>xs. reduceM scheduleReducer (Fin 0) xs = Some n \<Longrightarrow> nonneg n"
    by (rule reduceM_invariant[of nonneg "Fin 0" scheduleReducer]) (auto intro: scheduleReducer_nonneg)
  then show ?thesis
    using assms by (auto simp add: estimateScheduleRunsPerMonth_def Let_def split: if_splits)
qed

subsection \<open>The constants that are not integers\<close>

lemma fl_eight_tenths: "fl (8 / 10) = Fin (3602879701896397 / 4503599627370496)"
  by (rule fl_near[where e = "-1" and m = 7205759403792794]) simp_all

lemma fl_two_tenths: "fl (2 / 10) = Fin (3602879701896397 / 18014398509481984)"
  by (rule fl_near[where e = "-3" and m = 7205759403792794]) simp_all

lemma fl_eight_thousandths: "fl (8 / 1000) = Fin (1152921504606847 / 144115188075855872)"
  by (rule fl_near[where e = "-7" and m = 4611686018427388]) simp_all

lemma DEFAULT_PULL_REQUEST_FACTOR_value:
  "DEFAULT_PULL_REQUEST_FACTOR = Fin (3602879701896397 / 4503599627370496)"
  by (simp only: DEFAULT_PULL_REQUEST_FACTOR_def fl_eight_tenths)

lemma COST_PER_MINUTE_value: "COST_PER_MINUTE = Fin (1152921504606847 / 144115188075855872)"
  by (simp only: COST_PER_MINUTE_def fl_eight_thousandths)

subsection \<open>The normalized triggers\<close>

lemma normalizeTriggers_obj: "\<exists>t. normalizeTriggers v = JObj t"
  by (cases v) (auto simp: normalizeTriggers_def)

lemma normalizeTriggers_JObj [simp]: "normalizeTriggers (JObj t) = JObj t"
  by (simp add: normalizeTriggers_def)

lemma pushIsTagOnly_total: "\<exists>b. pushIsTagOnly (JObj t) = Some b"
proof (cases "hasOwn (JObj t) ''push''")
  case False
  then show ?thesis by (auto simp add: pushIsTagOnly_def)
next
  case True
  obtain push where p: "getProp (JObj t) ''push'' = Some push" by simp
  show ?thesis
  proof (cases "truthy (if typeof push = ''object'' then push else JNull)")
    case False
    then show ?thesis using True p by (auto simp add: pushIsTagOnly_def)
  next
    case tr: True
    then have "truthy push" by (simp split: if_splits)
    then obtain a b c where "getProp push ''tags'' = Some a" "getProp push ''branches'' = Some b"
      "getProp push ''branches-ignore'' = Some c"
      using getProp_truthy by blast
    then show ?thesis using True p tr by (auto simp add: pushIsTagOnly_def split: if_splits)
  qed
qed

lemma orDefault_nonneg: "nonnegOption x \<Longrightarrow> nonneg d \<Longrightarrow> nonneg (orDefault x d)"
  by (auto simp: orDefault_def nonnegOption_def split: option.splits num.splits)

lemma nmul_orDefault_nonneg:
  assumes "nonneg a" "nonnegOption x"
  shows "nonneg (nmul a (orDefault x DEFAULT_PULL_REQUEST_FACTOR))"
proof -
  have "\<exists>z. orDefault x DEFAULT_PULL_REQUEST_FACTOR = Fin z \<and> 0 < z"
    using assms(2)
    by (auto simp: orDefault_def nonnegOption_def DEFAULT_PULL_REQUEST_FACTOR_value
        simp del: divide_eq_eq_numeral1 split: option.splits num.splits)
  then obtain z where "orDefault x DEFAULT_PULL_REQUEST_FACTOR = Fin z" "0 < z" by blast
  then show ?thesis using assms(1) nonneg_nmul_pos by simp
qed

lemma nonneg_if: "nonneg a \<Longrightarrow> nonneg b \<Longrightarrow> nonneg (if p then a else b)"
  by simp

lemma combineRuns_geOne:
  assumes "nonneg cpm" "nonneg pr" "nonneg s" "nonneg rel" "nonneg man"
  shows "geOne (combineRuns cpm pr s rel man b1 b2 b3 b4 b5)"
  unfolding combineRuns_def Let_def
  by (intro geOne_nmax nceil_not_NaN nonneg_not_NaN nonneg_if nonneg_nadd assms) simp_all

lemma estimateWorkflowRunsPerMonth_combine:
  assumes on: "(if truthy w then getProp w ''on'' else Some w) = Some onConfig"
    and t: "normalizeTriggers onConfig = JObj t"
    and tg: "pushIsTagOnly (JObj t) = Some tagOnly"
    and sv: "getProp (JObj t) ''schedule'' = Some sv"
    and s: "estimateScheduleRunsPerMonth sv = Some s"
  shows "estimateWorkflowRunsPerMonth w c opts =
     Some (combineRuns (nceil (nmul c (Fin 30)))
        (nceil (nmul (nceil (nmul c (Fin 30)))
           (orDefault (pullRequestFactor opts) DEFAULT_PULL_REQUEST_FACTOR)))
        s
        (orDefault (releaseRunsPerMonth opts) DEFAULT_RELEASE_RUNS_PER_MONTH)
        (orDefault (manualRunsPerMonth opts) DEFAULT_MANUAL_RUNS_PER_MONTH)
        (hasOwn (JObj t) ''push'' \<and> \<not> tagOnly)
        (hasOwn (JObj t) ''pull_request'')
        (hasOwn (JObj t) ''schedule'')
        (hasOwn (JObj t) ''push'' \<and> tagOnly \<or> hasOwn (JObj t) ''release'' \<or> hasOwn (JObj t) ''create'')
        (hasOwn (JObj t) ''workflow_dispatch'' \<and> \<not> (hasOwn (JObj t) ''push'' \<and> \<not> tagOnly)
           \<and> \<not> hasOwn (JObj t) ''pull_request'' \<and> \<not> hasOwn (JObj t) ''schedule''
           \<and> \<not> (hasOwn (JObj t) ''push'' \<and> tagOnly) \<and> \<not> hasOwn (JObj t) ''release''
           \<and> \<not> hasOwn (JObj t) ''create''))"
proof -
  have 1: "estimateWorkflowRunsPerMonth w c opts =
      Option.bind (Some onConfig) (\<lambda>onConfig. Option.bind (Some tagOnly) (\<lambda>tagOnly.
        Option.bind (if hasOwn (JObj t) ''schedule'' then Some
            (nadd (if hasOwn (JObj t) ''pull_request''
                   then nadd (if hasOwn (JObj t) ''push'' \<and> \<not> tagOnly then nadd (Fin 0) (nceil (nmul c (Fin 30))) else Fin 0)
                          (nceil (nmul (nceil (nmul c (Fin 30))) (orDefault (pullRequestFactor opts) DEFAULT_PULL_REQUEST_FACTOR)))
                   else (if hasOwn (JObj t) ''push'' \<and> \<not> tagOnly then nadd (Fin 0) (nceil (nmul c (Fin 30))) else Fin 0)) s)
          else Some (if hasOwn (JObj t) ''pull_request''
                   then nadd (if hasOwn (JObj t) ''push'' \<and> \<not> tagOnly then nadd (Fin 0) (nceil (nmul c (Fin 30))) else Fin 0)
                          (nceil (nmul (nceil (nmul c (Fin 30))) (orDefault (pullRequestFactor opts) DEFAULT_PULL_REQUEST_FACTOR)))
                   else (if hasOwn (JObj t) ''push'' \<and> \<not> tagOnly then nadd (Fin 0) (nceil (nmul c (Fin 30))) else Fin 0)))
         (\<lambda>r3. Some (nmax (Fin 1) (nceil
            (let r4 = (if hasOwn (JObj t) ''push'' \<and> tagOnly \<or> hasOwn (JObj t) ''release'' \<or> hasOwn (JObj t) ''create''
                       then nadd r3 (orDefault (releaseRunsPerMonth opts) DEFAULT_RELEASE_RUNS_PER_MONTH) else r3);
                 r5 = (if hasOwn (JObj t) ''workflow_dispatch'' \<and> \<not> (hasOwn (JObj t) ''push'' \<and> \<not> tagOnly)
                           \<and> \<not> hasOwn (JObj t) ''pull_request'' \<and> \<not> hasOwn (JObj t) ''schedule''
                           \<and> \<not> (hasOwn (JObj t) ''push'' \<and> tagOnly) \<and> \<not> hasOwn (JObj t) ''release''
                           \<and> \<not> hasOwn (JObj t) ''create''
                       then nadd r4 (orDefault (manualRunsPerMonth opts) DEFAULT_MANUAL_RUNS_PER_MONTH) else r4)
             in (if num_eq r5 (Fin 0) then nceil (nmul c (Fin 30)) else r5)))))))"
    unfolding estimateWorkflowRunsPerMonth_def on
    by (simp only: bind.simps Let_def t tg sv s DAYS_PER_MONTH_def)
  show ?thesis
    unfolding 1 combineRuns_def
    by (cases "hasOwn (JObj t) ''schedule''") (simp_all only: bind.simps Let_def if_True if_False)
qed

lemma estimateWorkflowRunsPerMonth_geOne:
  assumes c: "nonneg c" and o: "nonnegOptions opts"
  shows "\<exists>n. estimateWorkflowRunsPerMonth w c opts = Some n \<and> geOne n"
proof -
  obtain onConfig where on: "(if truthy w then getProp w ''on'' else Some w) = Some onConfig"
    using getProp_truthy[of w "''on''"] by (cases "truthy w") auto
  obtain t where t: "normalizeTriggers onConfig = JObj t" using normalizeTriggers_obj by blast
  obtain tagOnly where tg: "pushIsTagOnly (JObj t) = Some tagOnly" using pushIsTagOnly_total by blast
  obtain sv where sv: "getProp (JObj t) ''schedule'' = Some sv" by simp
  obtain s where s: "estimateScheduleRunsPerMonth sv = Some s"
    using estimateScheduleRunsPerMonth_total by blast
  then have sn: "nonneg s" by (rule estimateScheduleRunsPerMonth_nonneg)
  have cpm: "nonneg (nceil (nmul c (Fin 30)))"
    using c by (intro nonneg_nceil nonneg_nmul_pos) simp_all
  have pr: "nonneg (nceil (nmul (nceil (nmul c (Fin 30)))
              (orDefault (pullRequestFactor opts) DEFAULT_PULL_REQUEST_FACTOR)))"
    using o by (intro nonneg_nceil nmul_orDefault_nonneg cpm) (simp add: nonnegOptions_def)
  have man: "nonneg (orDefault (manualRunsPerMonth opts) DEFAULT_MANUAL_RUNS_PER_MONTH)"
    using o by (intro orDefault_nonneg) (simp_all add: nonnegOptions_def DEFAULT_MANUAL_RUNS_PER_MONTH_def)
  have rel: "nonneg (orDefault (releaseRunsPerMonth opts) DEFAULT_RELEASE_RUNS_PER_MONTH)"
    using o by (intro orDefault_nonneg) (simp_all add: nonnegOptions_def DEFAULT_RELEASE_RUNS_PER_MONTH_def)
  show ?thesis
    unfolding estimateWorkflowRunsPerMonth_combine[OF on t tg sv s]
    using combineRuns_geOne[OF cpm pr sn rel man] by simp
qed

lemma nonneg_iff_nle: "nonneg n \<longleftrightarrow> nle (Fin 0) n"
  by (cases n) (auto simp: nonneg_def nle_def)

text \<open>
  C2.  For every workflow value, whatever its trigger declaration, every commitsPerDay
  that is at least 0, and tuning options whose overrides are finite and not negative,
  \<open>estimateWorkflowRunsPerMonth\<close> returns a number that is at least 1.
\<close>

theorem estimateWorkflowRunsPerMonth_at_least_one:
  assumes "nle (Fin 0) commitsPerDay" and "nonnegOptions opts"
  shows "\<exists>n. estimateWorkflowRunsPerMonth workflow commitsPerDay opts = Some n \<and> nle (Fin 1) n"
proof -
  have "nonneg commitsPerDay" using assms(1) by (simp add: nonneg_iff_nle)
  then obtain n where "estimateWorkflowRunsPerMonth workflow commitsPerDay opts = Some n" "geOne n"
    using estimateWorkflowRunsPerMonth_geOne[OF _ assms(2)] by blast
  then show ?thesis using geOne_nle by blast
qed

theorem estimateWorkflowRunsPerMonth_at_least_one_witness:
  "nle (Fin 0) (Fin 0) \<and> nonnegOptions noOptions
   \<and> (\<exists>n. estimateWorkflowRunsPerMonth JUndef (Fin 0) noOptions = Some n \<and> nle (Fin 1) n)
   \<and> (\<exists>n. estimateWorkflowRunsPerMonth (JObj [(''on'', JObj [])]) (Fin 0) noOptions = Some n
            \<and> nle (Fin 1) n)"
proof -
  have c: "nle (Fin 0) (Fin 0)" by (simp add: nle_def)
  have o: "nonnegOptions noOptions" by (simp add: nonnegOptions_def nonnegOption_def noOptions_def)
  show ?thesis
    using c o estimateWorkflowRunsPerMonth_at_least_one[OF c o, of JUndef]
      estimateWorkflowRunsPerMonth_at_least_one[OF c o, of "JObj [(''on'', JObj [])]"]
    by simp
qed

text \<open>
  C6.  A workflow whose only trigger is a push that lists tag patterns and no branch
  patterns runs once a month under the default tuning, whatever commitsPerDay is.
\<close>

theorem tag_only_push_runs_once:
  assumes "map_of props ''on'' = Some (JObj [(''push'', JObj config)])"
    and "map_of config ''tags'' = Some (JArr tags)" and "tags \<noteq> []"
    and "map_of config ''branches'' = None" and "map_of config ''branches-ignore'' = None"
  shows "estimateWorkflowRunsPerMonth (JObj props) commitsPerDay noOptions = Some (Fin 1)"
proof -
  let ?t = "[(''push'', JObj config)]"
  have on: "(if truthy (JObj props) then getProp (JObj props) ''on'' else Some (JObj props))
             = Some (JObj ?t)"
    using assms(1) by simp
  have tg: "pushIsTagOnly (JObj ?t) = Some True"
    using assms(2-5) by (simp add: pushIsTagOnly_def)
  have sv: "getProp (JObj ?t) ''schedule'' = Some JUndef" by simp
  have s: "estimateScheduleRunsPerMonth JUndef = Some (Fin 0)"
    by (simp add: estimateScheduleRunsPerMonth_def)
  show ?thesis
    unfolding estimateWorkflowRunsPerMonth_combine[OF on normalizeTriggers_JObj tg sv s]
    by (simp add: combineRuns_def noOptions_def orDefault_def DEFAULT_RELEASE_RUNS_PER_MONTH_def
        num_defs Let_def)
qed

theorem tag_only_push_runs_once_witness:
  "map_of [(''on'', JObj [(''push'', JObj [(''tags'', JArr [JStr ''v*''])])])] ''on''
     = Some (JObj [(''push'', JObj [(''tags'', JArr [JStr ''v*''])])])
   \<and> map_of [(''tags'', JArr [JStr ''v*''])] ''tags'' = Some (JArr [JStr ''v*''])
   \<and> [JStr ''v*''] \<noteq> []
   \<and> map_of [(''tags'', JArr [JStr ''v*''])] ''branches'' = None
   \<and> map_of [(''tags'', JArr [JStr ''v*''])] ''branches-ignore'' = None
   \<and> estimateWorkflowRunsPerMonth
        (JObj [(''on'', JObj [(''push'', JObj [(''tags'', JArr [JStr ''v*''])])])]) (Fin 3) noOptions
       = Some (Fin 1)"
  using tag_only_push_runs_once[of "[(''on'', JObj [(''push'', JObj [(''tags'', JArr [JStr ''v*''])])])]"
      "[(''tags'', JArr [JStr ''v*''])]" "[JStr ''v*'']" "Fin 3"]
  by simp

subsection \<open>Release, tag and create triggers\<close>






subsection \<open>The pricing example\<close>

lemma overage_cost_1000: "nmul (Fin 1000) COST_PER_MINUTE = Fin 8"
proof -
  have "fl (1000 * (1152921504606847 / 144115188075855872)) = Fin 8"
    by (rule fl_near[where e = 3 and m = 4503599627370496]) simp_all
  then show ?thesis by (simp only: COST_PER_MINUTE_value nmul.simps)
qed

text \<open>
  C7.  One workflow of 100 minutes a run with no trigger declaration, at one commit a
  day: 3000 minutes a month, 1000 minutes over the free limit of 2000, and an overage
  cost of exactly 8, the double nearest to 0.008 times 1000 being rounded to 8.
\<close>

theorem calculateMonthlyCosts_pricing:
  "map_option (\<lambda>r. (total_minutesPerMonth r, limit (free (tiers r)),
                     overage (free (tiers r)), cost (free (tiers r))))
     (calculateMonthlyCosts
        [\<lparr>wf_name = ''ci.yml'', wf_path = [], wf_estimatedDuration = Fin 100, wf_parsed = JUndef\<rparr>]
        (Fin 1) noOptions)
   = Some (Fin 3000, Fin 2000, Fin 1000, Fin 8)"
proof -
  let ?w = "\<lparr>wf_name = ''ci.yml'', wf_path = [], wf_estimatedDuration = Fin 100, wf_parsed = JUndef\<rparr>"
  have runs: "estimateWorkflowRunsPerMonth (recordObject ?w) (Fin 1) noOptions = Some (Fin 30)"
    by (simp add: estimateWorkflowRunsPerMonth_def recordObject_def pushIsTagOnly_def
        normalizeTriggers_def noOptions_def orDefault_def DAYS_PER_MONTH_def
        DEFAULT_RELEASE_RUNS_PER_MONTH_def DEFAULT_MANUAL_RUNS_PER_MONTH_def num_defs Let_def)
  have enriched: "enrich (Fin 1) noOptions ?w =
      Some \<lparr>wf_name = ''ci.yml'', wf_path = [], wf_estimatedDuration = Fin 100, wf_parsed = JUndef,
            wf_runsPerMonth = Fin 30, wf_minutesPerMonth = Fin 3000\<rparr>"
    by (simp add: enrich_def runs)
  show ?thesis
    by (simp add: calculateMonthlyCosts_def enriched Let_def FREE_TIER_MINUTES_def
        TEAM_TIER_MINUTES_def num_defs overage_cost_1000)
qed

theorem calculateMonthlyCosts_pricing_witness:
  "\<exists>r. calculateMonthlyCosts
        [\<lparr>wf_name = ''ci.yml'', wf_path = [], wf_estimatedDuration = Fin 100, wf_parsed = JUndef\<rparr>]
        (Fin 1) noOptions = Some r
      \<and> total_minutesPerMonth r = Fin 3000 \<and> limit (free (tiers r)) = Fin 2000
      \<and> overage (free (tiers r)) = Fin 1000 \<and> cost (free (tiers r)) = Fin 8"
  using calculateMonthlyCosts_pricing by auto

subsection \<open>A push without path filters that the detector misses\<close>

lemma wasted_runs_60: "nmul (Fin 60) (fl (2 / 10)) = Fin 12"
proof -
  have "fl (60 * (3602879701896397 / 18014398509481984)) = Fin 12"
    by (rule fl_near[where e = 3 and m = 6755399441055744]) simp_all
  then show ?thesis by (simp only: fl_two_tenths nmul.simps)
qed

text \<open>
  C8 at the input \<open>on: {push: null}\<close> (a push trigger with an empty configuration),
  a workflow named \<open>ci.yml\<close> of 20 minutes a run, at 2 commits a day.  The triggers
  include \<open>push\<close>, there is no path filter, the run estimate is 60 a month, and
  \<open>ceil(20 * (60 * 0.2)) = 240\<close> is above 50; the analyser returns no recommendation.
  The same holds for the declaration \<open>on: push\<close>.
\<close>

theorem missing_path_filter_not_detected:
  "analyzeOptimizations
     [\<lparr>wf_name = ''ci.yml'', wf_path = ''.github/workflows/ci.yml'',
       wf_estimatedDuration = Fin 20,
       wf_parsed = JObj [(''on'', JObj [(''push'', JNull)]),
                         (''jobs'', JObj [(''test'', JObj [(''steps'',
                            JArr [JObj [(''name'', JStr ''Test''), (''run'', JStr ''npm test'')]])])])]\<rparr>]
     (Fin 2) = Some []
   \<and> analyzeOptimizations
     [\<lparr>wf_name = ''ci.yml'', wf_path = ''.github/workflows/ci.yml'',
       wf_estimatedDuration = Fin 20,
       wf_parsed = JObj [(''on'', JStr ''push''),
                         (''jobs'', JObj [(''test'', JObj [(''steps'',
                            JArr [JObj [(''name'', JStr ''Test''), (''run'', JStr ''npm test'')]])])])]\<rparr>]
     (Fin 2) = Some []
   \<and> hasOwn (normalizeTriggers (JObj [(''push'', JNull)])) ''push''
   \<and> hasOwn (normalizeTriggers (JStr ''push'')) ''push''
   \<and> estimateWorkflowRunsPerMonth (JObj [(''on'', JObj [(''push'', JNull)])]) (Fin 2) noOptions
       = Some (Fin 60)
   \<and> estimateWorkflowRunsPerMonth (JObj [(''on'', JStr ''push'')]) (Fin 2) noOptions = Some (Fin 60)
   \<and> \<not> str_includes ''ci.yml'' ''release''
   \<and> nceil (nmul (Fin 20) (nmul (Fin 60) (fl (2 / 10)))) = Fin 240
   \<and> ngt (Fin 240) (Fin 50)"
proof -
  let ?jobs = "JObj [(''test'', JObj [(''steps'',
                  JArr [JObj [(''name'', JStr ''Test''), (''run'', JStr ''npm test'')]])])]"
  let ?p1 = "JObj [(''on'', JObj [(''push'', JNull)]), (''jobs'', ?jobs)]"
  let ?p2 = "JObj [(''on'', JStr ''push''), (''jobs'', ?jobs)]"
  have r1: "estimateWorkflowRunsPerMonth ?p1 (Fin 2) noOptions = Some (Fin 60)"
    by (simp add: estimateWorkflowRunsPerMonth_def pushIsTagOnly_def
        normalizeTriggers_def noOptions_def orDefault_def DAYS_PER_MONTH_def
        DEFAULT_RELEASE_RUNS_PER_MONTH_def DEFAULT_MANUAL_RUNS_PER_MONTH_def num_defs Let_def)
  have r2: "estimateWorkflowRunsPerMonth ?p2 (Fin 2) noOptions = Some (Fin 60)"
    by (simp add: estimateWorkflowRunsPerMonth_def pushIsTagOnly_def
        normalizeTriggers_def noOptions_def orDefault_def DAYS_PER_MONTH_def
        DEFAULT_RELEASE_RUNS_PER_MONTH_def DEFAULT_MANUAL_RUNS_PER_MONTH_def num_defs Let_def)
  have r1': "estimateWorkflowRunsPerMonth (JObj [(''on'', JObj [(''push'', JNull)])]) (Fin 2) noOptions
       = Some (Fin 60)"
    by (simp add: estimateWorkflowRunsPerMonth_def pushIsTagOnly_def
        normalizeTriggers_def noOptions_def orDefault_def DAYS_PER_MONTH_def
        DEFAULT_RELEASE_RUNS_PER_MONTH_def DEFAULT_MANUAL_RUNS_PER_MONTH_def num_defs Let_def)
  have r2': "estimateWorkflowRunsPerMonth (JObj [(''on'', JStr ''push'')]) (Fin 2) noOptions = Some (Fin 60)"
    by (simp add: estimateWorkflowRunsPerMonth_def pushIsTagOnly_def
        normalizeTriggers_def noOptions_def orDefault_def DAYS_PER_MONTH_def
        DEFAULT_RELEASE_RUNS_PER_MONTH_def DEFAULT_MANUAL_RUNS_PER_MONTH_def num_defs Let_def)
  have caching: "cachingRecommendations ''ci.yml'' (Fin 60) ''test''
      (JObj [(''steps'', JArr [JObj [(''name'', JStr ''Test''), (''run'', JStr ''npm test'')]])]) = Some []"
    by (simp add: cachingRecommendations_def usesCache_def runsInstall_def)
  have matrix: "matrixRecommendations ''ci.yml'' (Fin 20) (Fin 60) ''test''
      (JObj [(''steps'', JArr [JObj [(''name'', JStr ''Test''), (''run'', JStr ''npm test'')]])]) = Some []"
    by (simp add: matrixRecommendations_def)
  have s1: "scheduleRecommendations ''ci.yml'' (Fin 20) ?p1 = Some []"
    by (simp add: scheduleRecommendations_def num_defs Let_def)
  have s2: "scheduleRecommendations ''ci.yml'' (Fin 20) ?p2 = Some []"
    by (simp add: scheduleRecommendations_def normalizeTriggers_def num_defs Let_def)
  have f1: "pathFilterRecommendations ''ci.yml'' (Fin 20) (Fin 60) ?p1 = Some []"
    by (simp add: pathFilterRecommendations_def hasPathFilterIn_def Let_def)
  have f2: "pathFilterRecommendations ''ci.yml'' (Fin 20) (Fin 60) ?p2 = Some []"
    by (simp add: pathFilterRecommendations_def hasPathFilterIn_def Let_def)
  have w1: "workflowRecommendations (Fin 2)
     \<lparr>wf_name = ''ci.yml'', wf_path = ''.github/workflows/ci.yml'', wf_estimatedDuration = Fin 20,
       wf_parsed = ?p1\<rparr> = Some []"
    unfolding workflowRecommendations_def
    by (simp add: r1 caching matrix s1 f1 Let_def)
  have w2: "workflowRecommendations (Fin 2)
     \<lparr>wf_name = ''ci.yml'', wf_path = ''.github/workflows/ci.yml'', wf_estimatedDuration = Fin 20,
       wf_parsed = ?p2\<rparr> = Some []"
    unfolding workflowRecommendations_def
    by (simp add: r2 caching matrix s2 f2 Let_def)
  have savings: "nceil (nmul (Fin 20) (nmul (Fin 60) (fl (2 / 10)))) = Fin 240"
    by (simp only: wasted_runs_60) simp
  have a1: "analyzeOptimizations
     [\<lparr>wf_name = ''ci.yml'', wf_path = ''.github/workflows/ci.yml'', wf_estimatedDuration = Fin 20,
       wf_parsed = ?p1\<rparr>] (Fin 2) = Some []"
    by (simp add: analyzeOptimizations_def discoverRecommendations_def arraySort_def w1)
  have a2: "analyzeOptimizations
     [\<lparr>wf_name = ''ci.yml'', wf_path = ''.github/workflows/ci.yml'', wf_estimatedDuration = Fin 20,
       wf_parsed = ?p2\<rparr>] (Fin 2) = Some []"
    by (simp add: analyzeOptimizations_def discoverRecommendations_def arraySort_def w2)
  have h1: "hasOwn (normalizeTriggers (JObj [(''push'', JNull)])) ''push''" by simp
  have h2: "hasOwn (normalizeTriggers (JStr ''push'')) ''push''" by (simp add: normalizeTriggers_def)
  have n: "\<not> str_includes ''ci.yml'' ''release''" by simp
  have g: "ngt (Fin 240) (Fin 50)" by (simp add: ngt_def)
  show ?thesis by (intro conjI a1 a2 h1 h2 r1' r2' n savings g)
qed

theorem missing_path_filter_not_detected_witness:
  "analyzeOptimizations
     [\<lparr>wf_name = ''ci.yml'', wf_path = ''.github/workflows/ci.yml'',
       wf_estimatedDuration = Fin 20,
       wf_parsed = JObj [(''on'', JObj [(''push'', JNull)]),
                         (''jobs'', JObj [(''test'', JObj [(''steps'',
                            JArr [JObj [(''name'', JStr ''Test''), (''run'', JStr ''npm test'')]])])])]\<rparr>]
     (Fin 2) = Some []"
  by (rule conjunct1[OF missing_path_filter_not_detected])

subsection \<open>The order of the numbers that are not NaN\<close>

lemma nlt_trans: "nlt a b \<Longrightarrow> nlt b c \<Longrightarrow> nlt a c"
  by (cases a; cases b; cases c) auto

lemma nlt_irrefl [simp]: "\<not> nlt a a"
  by (cases a) auto


lemma nlt_not_nlt_trans:
  "a \<noteq> NaN \<Longrightarrow> b \<noteq> NaN \<Longrightarrow> c \<noteq> NaN \<Longrightarrow> nlt a b \<Longrightarrow> \<not> nlt c b \<Longrightarrow> nlt a c"
  by (cases a; cases b; cases c) auto


subsection \<open>The comparison of two savings\<close>

lemma nceil_idem [simp]: "nceil (nceil n) = nceil n"
  by (cases n) auto



subsection \<open>Insertion sort by a comparison\<close>

lemma insertBy_set [simp]: "set (insertBy cmp x ys) = insert x (set ys)"
  by (induction ys) auto

lemma arraySort_set [simp]: "set (arraySort cmp xs) = set xs"
  by (induction xs) (auto simp: arraySort_def)




subsection \<open>Every saving is a ceiling\<close>

lemma ceiled_Nil [simp]: "ceiled []"
  by (simp add: ceiled_def)

lemma ceiled_append [simp]: "ceiled (xs @ ys) \<longleftrightarrow> ceiled xs \<and> ceiled ys"
  by (auto simp: ceiled_def)











subsection \<open>Substring search, case apart\<close>

lemma startsWith_take: "startsWith s p \<longleftrightarrow> take (length p) s = p"
  by (induction s p rule: startsWith.induct) auto

lemma str_includes_iff:
  "str_includes s k \<longleftrightarrow> (\<exists>i\<le>length s. take (length k) (drop i s) = k)"
proof (induction s)
  case Nil
  show ?case by auto
next
  case (Cons c cs)
  have "(\<exists>i\<le>length (c # cs). take (length k) (drop i (c # cs)) = k) \<longleftrightarrow>
        take (length k) (c # cs) = k \<or> (\<exists>i\<le>length cs. take (length k) (drop i cs) = k)"
    (is "?L \<longleftrightarrow> ?R")
  proof
    assume ?L
    then obtain i where i: "i \<le> length (c # cs)" "take (length k) (drop i (c # cs)) = k"
      by blast
    show ?R
    proof (cases i)
      case 0
      then show ?thesis using i by simp
    next
      case (Suc j)
      then have "j \<le> length cs" "take (length k) (drop j cs) = k" using i by simp_all
      then show ?thesis by blast
    qed
  next
    assume ?R
    then show ?L
    proof
      assume "take (length k) (c # cs) = k"
      then have "0 \<le> length (c # cs) \<and> take (length k) (drop 0 (c # cs)) = k" by simp
      then show ?L by blast
    next
      assume "\<exists>i\<le>length cs. take (length k) (drop i cs) = k"
      then obtain j where "j \<le> length cs" "take (length k) (drop j cs) = k" by blast
      then have "Suc j \<le> length (c # cs) \<and> take (length k) (drop (Suc j) (c # cs)) = k"
        by simp
      then show ?L by blast
    qed
  qed
  then show ?case using Cons by (simp add: startsWith_take)
qed

lemma containsIgnoringCase_iff:
  "containsIgnoringCase name keyword
     \<longleftrightarrow> str_includes (toLowerCase name) (toLowerCase keyword)"
proof -
  have "containsIgnoringCase name keyword \<longleftrightarrow>
        (\<exists>i\<le>length name. toLowerCase (take (length keyword) (drop i name)) = toLowerCase keyword)"
    unfolding containsIgnoringCase_def list_ex_iff set_upt
    by (auto simp: less_Suc_eq_le)
  then show ?thesis
    by (simp add: str_includes_iff toLowerCase_def take_map drop_map)
qed

lemma keywords_lower:
  "toLowerCase ''test'' = ''test''" "toLowerCase ''e2e'' = ''e2e''"
  "toLowerCase ''build'' = ''build''" "toLowerCase ''compile'' = ''compile''"
  "toLowerCase ''deploy'' = ''deploy''" "toLowerCase ''publish'' = ''publish''"
  "toLowerCase ''install'' = ''install''" "toLowerCase ''setup'' = ''setup''"
  by (simp_all add: str_defs)

subsection \<open>One step\<close>

lemma stepWeight_Some:
  "stepWeight (Some n) =
     (if str_includes (toLowerCase n) ''test'' \<or> str_includes (toLowerCase n) ''e2e'' then 10
      else if str_includes (toLowerCase n) ''build'' \<or> str_includes (toLowerCase n) ''compile'' then 5
      else if str_includes (toLowerCase n) ''deploy'' \<or> str_includes (toLowerCase n) ''publish'' then 3
      else if str_includes (toLowerCase n) ''install'' \<or> str_includes (toLowerCase n) ''setup'' then 2
      else 1)"
proof -
  have k: "\<And>kw. containsIgnoringCase n kw = str_includes (toLowerCase n) (toLowerCase kw)"
    by (rule containsIgnoringCase_iff)
  have two: "\<And>P a b. list_ex P [a, b] \<longleftrightarrow> P a \<or> P b"
    by (simp add: list_ex_iff)
  show ?thesis
    unfolding stepWeight_def keywordWeights_def
    by (simp only: option.case find.simps two prod.case k keywords_lower) simp
qed

lemma stepWeight_le: "stepWeight n \<le> 10"
  by (cases n) (simp_all add: stepWeight_Some, simp add: stepWeight_def)

lemma stepMinutes_reference:
  assumes "stepShaped step"
  shows "stepMinutes step = Some (Fin (of_nat (stepWeight (stepName step))))"
proof -
  obtain kvs where step: "step = JObj kvs"
    using assms by (auto simp: stepShaped_def split: jsval.splits)
  define v where "v = propOf step ''name''"
  have g: "getProp step ''name'' = Some v" by (simp add: v_def propOf_def step)
  have vv: "propOf (JObj kvs) ''name'' = v" by (simp add: v_def step)
  show ?thesis
  proof (cases "\<exists>s. v = JStr s \<and> s \<noteq> []")
    case True
    then obtain s where s: "v = JStr s" "s \<noteq> []" by blast
    have n: "stepName step = Some s" using s by (simp add: stepName_def step vv)
    show ?thesis
      unfolding stepMinutes_def g n stepWeight_Some using s by simp
  next
    case False
    have f: "\<not> truthy v"
      using assms False by (auto simp: stepShaped_def step vv split: jsval.splits)
    have n: "stepName step = None"
      using False by (auto simp: stepName_def step vv split: jsval.splits)
    show ?thesis
      unfolding stepMinutes_def g n using f by (simp add: stepWeight_def)
  qed
qed

subsection \<open>Whole numbers in the exact range\<close>

lemma nadd_nat:
  "a + b \<le> 2 ^ 53 \<Longrightarrow> nadd (Fin (of_nat a)) (Fin (of_nat b)) = Fin (of_nat (a + b))"
  using fl_of_nat[of "a + b"] by simp

lemma nmul_nat:
  "a * b \<le> 2 ^ 53 \<Longrightarrow> nmul (Fin (of_nat a)) (Fin (of_nat b)) = Fin (of_nat (a * b))"
  using fl_of_nat[of "a * b"] by simp

lemma nmin_nat: "nmin (Fin (of_nat a)) (Fin 60) = Fin (of_nat (min a 60))"
proof -
  have "((60::rat) < of_nat a) = (60 < a)"
    using of_nat_less_iff[of 60 a, where 'a = rat] by simp
  then show ?thesis by (simp add: nmin_def min_def)
qed

lemma nceil_nat: "nceil (Fin (of_nat a)) = Fin (of_nat a)"
  by simp

subsection \<open>The steps of a job\<close>

lemma steps_minutes:
  assumes "list_all stepShaped ss" and "acc + 10 * length ss \<le> 2 ^ 53"
  shows "reduceM (\<lambda>m step. map_option (nadd m) (stepMinutes step)) (Fin (of_nat acc)) ss
         = Some (Fin (of_nat (acc + sum_list (map (\<lambda>step. stepWeight (stepName step)) ss))))"
  using assms
proof (induction ss arbitrary: acc)
  case Nil
  then show ?case by simp
next
  case (Cons s ss)
  let ?w = "stepWeight (stepName s)"
  have w: "?w \<le> 10" by (rule stepWeight_le)
  have m: "stepMinutes s = Some (Fin (of_nat ?w))"
    using Cons.prems(1) by (simp add: stepMinutes_reference)
  have a: "nadd (Fin (of_nat acc)) (Fin (of_nat ?w)) = Fin (of_nat (acc + ?w))"
    using Cons.prems(2) w by (intro nadd_nat) simp
  have "reduceM (\<lambda>m step. map_option (nadd m) (stepMinutes step)) (Fin (of_nat (acc + ?w))) ss
        = Some (Fin (of_nat (acc + ?w + sum_list (map (\<lambda>step. stepWeight (stepName step)) ss))))"
    using Cons.prems w by (intro Cons.IH) simp_all
  then show ?case by (simp add: m a add.assoc del: of_nat_add nadd.simps)
qed

subsection \<open>The matrix of a job\<close>

lemma axis_bound_pos:
  "1 \<le> prod_list (map (\<lambda>axis. case axis of JArr xs \<Rightarrow> max 1 (length xs) | _ \<Rightarrow> 1) vs)"
  by (induction vs) (auto split: jsval.splits simp: Suc_le_eq)

lemma combinations_le:
  "combinations vs
     \<le> prod_list (map (\<lambda>axis. case axis of JArr xs \<Rightarrow> max 1 (length xs) | _ \<Rightarrow> 1) vs)"
  unfolding combinations_def
  by (induction vs) (auto split: jsval.splits intro!: mult_mono)

lemma le_of_mult_le:
  assumes "1 \<le> (p::nat)" and "a * p \<le> b"
  shows "a \<le> b"
proof (cases p)
  case 0
  with assms(1) show ?thesis by simp
next
  case (Suc k)
  with assms(2) show ?thesis by simp
qed

lemma matrix_product:
  assumes "acc * prod_list (map (\<lambda>axis. case axis of JArr xs \<Rightarrow> max 1 (length xs) | _ \<Rightarrow> 1) vs)
             \<le> 2 ^ 53"
  shows "foldl (\<lambda>size values.
             (case values of JArr xs \<Rightarrow> nmul size (Fin (of_nat (length xs))) | _ \<Rightarrow> size))
           (Fin (of_nat acc)) vs
         = Fin (of_nat (acc * combinations vs))"
  using assms
proof (induction vs arbitrary: acc)
  case Nil
  then show ?case by (simp add: combinations_def)
next
  case (Cons v vs)
  let ?P = "prod_list (map (\<lambda>axis. case axis of JArr xs \<Rightarrow> max 1 (length xs) | _ \<Rightarrow> 1) vs)"
  have P: "1 \<le> ?P" by (rule axis_bound_pos)
  show ?case
  proof (cases "\<exists>xs. v = JArr xs")
    case True
    then obtain xs where v: "v = JArr xs" by blast
    have b: "acc * (max 1 (length xs) * ?P) \<le> 2 ^ 53" using Cons.prems by (simp add: v)
    have "acc * length xs * ?P \<le> acc * (max 1 (length xs) * ?P)"
      by (simp add: mult_le_mono)
    then have b1: "acc * length xs * ?P \<le> 2 ^ 53" using b by linarith
    have b2: "acc * length xs \<le> 2 ^ 53" using P b1 by (rule le_of_mult_le)
    have ih: "foldl (\<lambda>size values.
             (case values of JArr xs \<Rightarrow> nmul size (Fin (of_nat (length xs))) | _ \<Rightarrow> size))
           (Fin (of_nat (acc * length xs))) vs
         = Fin (of_nat (acc * length xs * combinations vs))"
      using b1 by (rule Cons.IH)
    have st: "foldl (\<lambda>size values.
             (case values of JArr xs \<Rightarrow> nmul size (Fin (of_nat (length xs))) | _ \<Rightarrow> size))
           (Fin (of_nat acc)) (v # vs)
        = foldl (\<lambda>size values.
             (case values of JArr xs \<Rightarrow> nmul size (Fin (of_nat (length xs))) | _ \<Rightarrow> size))
           (Fin (of_nat (acc * length xs))) vs"
      by (simp add: v nmul_nat[OF b2] del: nmul.simps of_nat_mult)
    have c: "combinations (v # vs) = length xs * combinations vs"
      by (simp add: v combinations_def)
    show ?thesis unfolding st ih c by (simp only: mult.assoc)
  next
    case False
    have b: "acc * ?P \<le> 2 ^ 53" using Cons.prems False by (cases v) simp_all
    have c: "combinations (v # vs) = combinations vs"
      using False by (cases v) (simp_all add: combinations_def)
    have "foldl (\<lambda>size values.
             (case values of JArr xs \<Rightarrow> nmul size (Fin (of_nat (length xs))) | _ \<Rightarrow> size))
           (Fin (of_nat acc)) (v # vs)
        = foldl (\<lambda>size values.
             (case values of JArr xs \<Rightarrow> nmul size (Fin (of_nat (length xs))) | _ \<Rightarrow> size))
           (Fin (of_nat acc)) vs"
      using False by (cases v) simp_all
    then show ?thesis using Cons.IH[OF b] c by simp
  qed
qed

subsection \<open>One job\<close>

lemma getProp_propOf: "truthy v \<Longrightarrow> getProp v k = Some (propOf v k)"
  by (cases v) (auto simp: propOf_def)

lemma propOf_JObj_truthy: "propOf v k = JObj kvs \<Longrightarrow> truthy v"
  by (cases v) (auto simp: propOf_def split: if_splits option.splits)

lemma weights_le:
  "sum_list (map (\<lambda>step. stepWeight (stepName step)) ss) \<le> 10 * length ss"
proof (induction ss)
  case Nil
  show ?case by simp
next
  case (Cons s ss)
  have "stepWeight (stepName s) \<le> 10" by (rule stepWeight_le)
  with Cons show ?case by simp
qed

lemma jobMinutes_reference:
  assumes sh: "jobShaped job" and b: "jobWorkload job \<le> 2 ^ 53"
  shows "jobMinutes job = Some (Fin (of_nat (jobDuration job)))"
proof -
  obtain kvs where job: "job = JObj kvs"
    using sh by (auto simp: jobShaped_def split: jsval.splits)
  define steps where "steps = propOf job ''steps''"
  define strategy where "strategy = propOf job ''strategy''"
  define matrix where "matrix = propOf strategy ''matrix''"
  have g1: "getProp job ''steps'' = Some steps"
    and g2: "getProp job ''strategy'' = Some strategy"
    by (simp_all add: steps_def strategy_def job propOf_def)
  have sh1: "(case steps of JArr ss \<Rightarrow> list_all stepShaped ss | _ \<Rightarrow> True)"
    and sh2: "(case matrix of JObj axes \<Rightarrow> True | v \<Rightarrow> \<not> truthy v)"
    using sh unfolding jobShaped_def job steps_def matrix_def strategy_def by simp_all
  let ?n = "5 + sum_list (map (\<lambda>step. stepWeight (stepName step)) (stepsOf job))"
  let ?B = "prod_list (map (\<lambda>axis. case axis of JArr xs \<Rightarrow> max 1 (length xs) | _ \<Rightarrow> 1)
                        (axesOf job))"
  let ?M = "Fin (of_nat (min 60 ?n))"
  have B: "1 \<le> ?B" by (rule axis_bound_pos)
  have bb: "(5 + 10 * length (stepsOf job)) * ?B \<le> 2 ^ 53"
    using b unfolding jobWorkload_def .
  have b5: "5 + 10 * length (stepsOf job) \<le> 2 ^ 53" using B bb by (rule le_of_mult_le)
  have le: "min 60 ?n \<le> 5 + 10 * length (stepsOf job)"
    using weights_le[of "stepsOf job"] by simp
  have m1: "(case steps of
               JArr ss \<Rightarrow> do {
                 m \<leftarrow> reduceM (\<lambda>m step. map_option (nadd m) (stepMinutes step)) (Fin 5) ss;
                 Some (nmin m (Fin 60))
               }
             | _ \<Rightarrow> Some (Fin 5)) = Some ?M"
  proof (cases "\<exists>ss. steps = JArr ss")
    case True
    then obtain ss where ss: "steps = JArr ss" by blast
    have so: "stepsOf job = ss" by (simp add: stepsOf_def steps_def[symmetric] ss)
    have all: "list_all stepShaped ss" using sh1 by (simp add: ss)
    have five: "Fin 5 = Fin (of_nat 5)" by simp
    have r: "reduceM (\<lambda>m step. map_option (nadd m) (stepMinutes step)) (Fin 5) ss
             = Some (Fin (of_nat ?n))"
      unfolding five so using all b5 by (intro steps_minutes) (simp_all add: so)
    show ?thesis
      unfolding ss jsval.case r by (simp only: bind.bind_lunit nmin_nat min.commute)
  next
    case False
    have so: "stepsOf job = []"
      using False by (auto simp: stepsOf_def steps_def[symmetric] split: jsval.splits)
    have "(case steps of
               JArr ss \<Rightarrow> do {
                 m \<leftarrow> reduceM (\<lambda>m step. map_option (nadd m) (stepMinutes step)) (Fin 5) ss;
                 Some (nmin m (Fin 60))
               }
             | _ \<Rightarrow> Some (Fin 5)) = Some (Fin 5)"
      using False by (cases steps) simp_all
    then show ?thesis by (simp add: so)
  qed
  have tail: "(if truthy strategy then do {
                 matrix \<leftarrow> getProp strategy ''matrix'';
                 if truthy matrix then do {
                   matrixSize \<leftarrow> calculateMatrixSize matrix;
                   Some (nmul ?M matrixSize)
                 } else Some ?M
               } else Some ?M)
              = Some (Fin (of_nat (min 60 ?n * combinations (axesOf job))))"
  proof (cases "\<exists>axes. matrix = JObj axes")
    case True
    then obtain axes where ax: "matrix = JObj axes" by blast
    have t: "truthy strategy" using ax unfolding matrix_def by (rule propOf_JObj_truthy)
    have g3: "getProp strategy ''matrix'' = Some (JObj axes)"
      using getProp_propOf[OF t, of "''matrix''"] ax by (simp add: matrix_def)
    have ao: "axesOf job = map snd axes"
      by (simp add: axesOf_def strategy_def[symmetric] matrix_def[symmetric] ax)
    have one: "Fin 1 = Fin (of_nat 1)" by simp
    have "1 * ?B \<le> (5 + 10 * length (stepsOf job)) * ?B" by (intro mult_le_mono) simp_all
    then have b1: "1 * ?B \<le> 2 ^ 53" using bb by linarith
    have size: "calculateMatrixSize (JObj axes)
                = Some (Fin (of_nat (combinations (axesOf job))))"
      unfolding calculateMatrixSize_def objectValues_def one
      using matrix_product[of 1 "axesOf job", OF b1] by (simp add: ao)
    have "min 60 ?n * combinations (axesOf job) \<le> (5 + 10 * length (stepsOf job)) * ?B"
      using le combinations_le[of "axesOf job"] by (rule mult_le_mono)
    then have b2: "min 60 ?n * combinations (axesOf job) \<le> 2 ^ 53" using bb by linarith
    show ?thesis
      using t by (simp add: g3 size nmul_nat[OF b2] del: nmul.simps of_nat_mult)
  next
    case False
    have f: "\<not> truthy matrix" using sh2 False by (cases matrix) simp_all
    have ao: "axesOf job = []"
      using False
      by (auto simp: axesOf_def strategy_def[symmetric] matrix_def[symmetric] split: jsval.splits)
    have g3: "truthy strategy \<Longrightarrow> getProp strategy ''matrix'' = Some matrix"
      unfolding matrix_def by (rule getProp_propOf)
    show ?thesis
      using f by (cases "truthy strategy") (simp_all add: g3 ao combinations_def)
  qed
  show ?thesis
    unfolding jobMinutes_def g1 g2 jobDuration_def
    by (simp only: bind.bind_lunit m1 tail)
qed

subsection \<open>The jobs of a workflow\<close>

lemma jobDuration_le: "jobDuration job \<le> jobWorkload job"
proof -
  have a: "min 60 (5 + sum_list (map (\<lambda>step. stepWeight (stepName step)) (stepsOf job)))
           \<le> 5 + 10 * length (stepsOf job)"
    using weights_le[of "stepsOf job"] by simp
  show ?thesis
    unfolding jobDuration_def jobWorkload_def
    using a combinations_le[of "axesOf job"] by (rule mult_le_mono)
qed

lemma jobs_minutes:
  assumes "list_all jobShaped js" and "acc + sum_list (map jobWorkload js) \<le> 2 ^ 53"
  shows "reduceM (\<lambda>total' job. map_option (nadd total') (jobMinutes job)) (Fin (of_nat acc)) js
         = Some (Fin (of_nat (acc + sum_list (map jobDuration js))))"
  using assms
proof (induction js arbitrary: acc)
  case Nil
  then show ?case by simp
next
  case (Cons j js)
  have d: "jobDuration j \<le> jobWorkload j" by (rule jobDuration_le)
  have m: "jobMinutes j = Some (Fin (of_nat (jobDuration j)))"
    using Cons.prems by (intro jobMinutes_reference) simp_all
  have a: "nadd (Fin (of_nat acc)) (Fin (of_nat (jobDuration j)))
           = Fin (of_nat (acc + jobDuration j))"
    using Cons.prems(2) d by (intro nadd_nat) simp
  have "reduceM (\<lambda>total' job. map_option (nadd total') (jobMinutes job))
          (Fin (of_nat (acc + jobDuration j))) js
        = Some (Fin (of_nat (acc + jobDuration j + sum_list (map jobDuration js))))"
    using Cons.prems d by (intro Cons.IH) simp_all
  then show ?case by (simp add: m a add.assoc del: of_nat_add nadd.simps)
qed

text \<open>
  C3.  For a workflow of the documented shape whose numbers stay in the range where a
  double holds every whole number, \<open>estimateWorkflowDuration\<close> returns the reference
  duration: per job 5 minutes plus the weight of each step by the first keyword class
  its name matches, case apart, the total clamped at 60 and then multiplied by the
  product of the lengths of the sequence-valued matrix axes; the ceiling of the sum over
  the jobs; 0 without jobs.  A matrix of two axes of 3 and 2 values has size 6.
\<close>

theorem estimateWorkflowDuration_reference:
  assumes "wellShaped workflow" and "workload workflow \<le> 2 ^ 53"
  shows "estimateWorkflowDuration workflow = Some (Fin (of_nat (durationSpec workflow)))
     \<and> (jobsOf workflow = [] \<longrightarrow> estimateWorkflowDuration workflow = Some (Fin 0))
     \<and> (length xs = 3 \<and> length ys = 2 \<longrightarrow>
          calculateMatrixSize (JObj [(a, JArr xs), (b, JArr ys)]) = Some (Fin 6))"
proof -
  obtain kvs where w: "workflow = JObj kvs"
    using assms(1) by (auto simp: wellShaped_def split: jsval.splits)
  define jobs where "jobs = propOf workflow ''jobs''"
  have g: "getProp workflow ''jobs'' = Some jobs"
    by (simp add: jobs_def w propOf_def)
  have sh: "(case jobs of JObj js \<Rightarrow> list_all jobShaped (map snd js) | v \<Rightarrow> \<not> truthy v)"
    using assms(1) unfolding wellShaped_def w jobs_def by simp
  have ceil: "durationSpec workflow = sum_list (map jobDuration (jobsOf workflow))"
    by (simp add: durationSpec_def)
  have main: "estimateWorkflowDuration workflow = Some (Fin (of_nat (durationSpec workflow)))"
  proof (cases "\<exists>js. jobs = JObj js")
    case True
    then obtain js where js: "jobs = JObj js" by blast
    have jo: "jobsOf workflow = map snd js" by (simp add: jobsOf_def jobs_def[symmetric] js)
    have all: "list_all jobShaped (map snd js)" using sh by (simp add: js)
    have zero: "Fin 0 = Fin (of_nat 0)" by simp
    have bound: "0 + sum_list (map jobWorkload (map snd js)) \<le> 2 ^ 53"
      using assms(2) by (simp add: workload_def jo)
    have r: "reduceM (\<lambda>total' job. map_option (nadd total') (jobMinutes job)) (Fin 0) (map snd js)
             = Some (Fin (of_nat (0 + sum_list (map jobDuration (map snd js)))))"
      unfolding zero using all bound by (rule jobs_minutes)
    show ?thesis
      unfolding estimateWorkflowDuration_def g ceil jo
      by (simp add: js objectValues_def r)
  next
    case False
    have f: "\<not> truthy jobs" using sh False by (cases jobs) simp_all
    have jo: "jobsOf workflow = []"
      using False by (auto simp: jobsOf_def jobs_def[symmetric] split: jsval.splits)
    show ?thesis
      unfolding estimateWorkflowDuration_def g ceil jo using f by simp
  qed
  have none: "jobsOf workflow = [] \<longrightarrow> estimateWorkflowDuration workflow = Some (Fin 0)"
    using main by (simp add: durationSpec_def)
  have six: "length xs = 3 \<and> length ys = 2 \<longrightarrow>
          calculateMatrixSize (JObj [(a, JArr xs), (b, JArr ys)]) = Some (Fin 6)"
    by (simp add: calculateMatrixSize_def objectValues_def)
  show ?thesis using main none six by blast
qed

lemma matrixWorkflow_steps:
  "stepWeight (stepName (JObj [(''name'', JStr ''Checkout'')])) = 1"
  "stepWeight (stepName (JObj [(''name'', JStr ''Test'')])) = 10"
  by (simp_all add: stepName_def propOf_def stepWeight_Some str_defs)

theorem estimateWorkflowDuration_reference_witness:
  "wellShaped matrixWorkflow \<and> workload matrixWorkflow \<le> 2 ^ 53
   \<and> durationSpec matrixWorkflow = 96
   \<and> estimateWorkflowDuration matrixWorkflow = Some (Fin 96)
   \<and> calculateMatrixSize (JObj [(''node'', JArr [JStr ''14'', JStr ''16'', JStr ''18'']),
                                 (''os'', JArr [JStr ''ubuntu'', JStr ''windows''])])
       = Some (Fin 6)"
proof -
  have s: "wellShaped matrixWorkflow"
    by (simp add: matrixWorkflow_def wellShaped_def jobShaped_def stepShaped_def propOf_def)
  have d: "durationSpec matrixWorkflow = 96"
    by (simp add: matrixWorkflow_def durationSpec_def jobsOf_def jobDuration_def stepsOf_def
        axesOf_def combinations_def propOf_def matrixWorkflow_steps[unfolded propOf_def])
  have l: "workload matrixWorkflow \<le> 2 ^ 53"
    by (simp add: matrixWorkflow_def workload_def jobWorkload_def jobsOf_def stepsOf_def
        axesOf_def propOf_def)
  note t = estimateWorkflowDuration_reference[OF s l,
      of "[JStr ''14'', JStr ''16'', JStr ''18'']" "[JStr ''ubuntu'', JStr ''windows'']"
         "''node''" "''os''"]
  show ?thesis using s l d t by simp
qed

end
